theory Spec2Isabelle
  imports Main "HOL-Library.AList"
begin

section \<open>Rule trees of rules_server/models.py\<close>

text \<open>
  The development embeds the evaluation engine of \<^verbatim>\<open>rules_server/models.py\<close>:
  \<^verbatim>\<open>Rule.calc\<close>, \<^verbatim>\<open>Rule.sql\<close>, \<^verbatim>\<open>Node.calc\<close>, \<^verbatim>\<open>Node.sql\<close>,
  \<^verbatim>\<open>Ruleset.flattened\<close>, \<^verbatim>\<open>Ruleset.null_source_sql\<close>, \<^verbatim>\<open>Ruleset.values_from_json\<close>,
  \<^verbatim>\<open>Ruleset.calc\<close>, \<^verbatim>\<open>Ruleset.sql\<close> and \<^verbatim>\<open>SyntaxSchema._col_data_type\<close> with
  \<^verbatim>\<open>SyntaxSchema.data_types\<close>.

  Python exceptions are values of the type \<open>error\<close>; a function that may raise returns
  \<open>error + 'a\<close> with \<open>Inl\<close> the exception. Dictionaries are association lists kept in
  insertion order; \<open>AList.update\<close> is the assignment \<^verbatim>\<open>d[k] = v\<close> (an existing key keeps
  its place, a new one goes last).
\<close>

subsection \<open>Exceptions\<close>

datatype error =
    DataError string      \<comment> \<open>\<^verbatim>\<open>django.db.DataError(msg)\<close>, raised by \<^verbatim>\<open>Rule.calc\<close>\<close>
  | TypeError
  | ValueError
  | KeyError string
  | IndexError
  | AttributeError
  | Unmodelled            \<comment> \<open>an input shape this embedding does not follow\<close>

subsection \<open>The relational backend\<close>

text \<open>
  \<^verbatim>\<open>cursor.execute(sql, params)\<close> either raises an exception \<open>exc\<close>, kept by its text
  \<^verbatim>\<open>str(exc)\<close>, or leaves the rows of the statement in the cursor. Every row of the
  statement built from \<^verbatim>\<open>Rule._SQL\<close> has the six selected columns; a column that is
  SQL NULL is \<open>None\<close>. A \<^verbatim>\<open>datetime.date\<close> is true in a boolean context whatever its value.
\<close>

datatype date = Date int int int

record row =
  col_eligible :: "bool option"
  col_explanation :: "string option"
  col_end_date :: "date option"
  col_normal :: "bool option"
  col_description :: "string option"
  col_limitation_explanation :: "string option"

datatype executed = Raises string | Cursor "row list"

type_synonym db = "string \<Rightarrow> string list \<Rightarrow> executed"

definition fetchone :: "row list \<Rightarrow> row option" where
  "fetchone rows = (case rows of [] \<Rightarrow> None | r # _ \<Rightarrow> Some r)"

subsection \<open>Rules, nodes and their results\<close>

datatype rule = Rule (rule_name: string) (code: "string option")

datatype node =
  Node (node_name: string) (requires_all: bool) (node_set: "node list") (rule_set: "rule list")

record limitation =
  end_date :: "date option"
  normal :: "bool option"
  description :: "string option"
  lim_explanation :: "string option"

text \<open>
  A node's \<^verbatim>\<open>explanation\<close> list holds the text of each rule and the list of each child
  node; its \<^verbatim>\<open>limitation\<close> list holds the record of each rule and the list of each
  child node.
\<close>

datatype expl = ExplText "string option" | ExplList "expl list"

datatype lim = LimRec limitation | LimList "lim list"

datatype result =
    RuleResult "bool option" "string option" "limitation option"
  | NodeResult bool "expl list" "lim list" "(string \<times> result) list"

fun eligible :: "result \<Rightarrow> bool option" where
  "eligible (RuleResult e x l) = e"
| "eligible (NodeResult e xs ls sf) = Some e"

fun explanation :: "result \<Rightarrow> expl" where
  "explanation (RuleResult e x l) = ExplText x"
| "explanation (NodeResult e xs ls sf) = ExplList xs"

fun limitation_of :: "result \<Rightarrow> lim option" where
  "limitation_of (RuleResult e x l) = map_option LimRec l"
| "limitation_of (NodeResult e xs ls sf) = Some (LimList ls)"

fun subfindings :: "result \<Rightarrow> (string \<times> result) list" where
  "subfindings (RuleResult e x l) = []"
| "subfindings (NodeResult e xs ls sf) = sf"

subsection \<open>Truth values of Python objects\<close>

definition truthy_bool :: "bool option \<Rightarrow> bool" where
  "truthy_bool b = (b = Some True)"

definition truthy_text :: "string option \<Rightarrow> bool" where
  "truthy_text s = (case s of None \<Rightarrow> False | Some t \<Rightarrow> t \<noteq> [])"

definition truthy_date :: "date option \<Rightarrow> bool" where
  "truthy_date d = (d \<noteq> None)"

text \<open>A limitation record is a dictionary of four keys, hence true; a list is true when
  it is not empty; \<^verbatim>\<open>None\<close> is false.\<close>

fun truthy_lim :: "lim option \<Rightarrow> bool" where
  "truthy_lim None = False"
| "truthy_lim (Some (LimRec l)) = True"
| "truthy_lim (Some (LimList ls)) = (ls \<noteq> [])"

text \<open>\<^verbatim>\<open>eligibility &= x\<close> and \<^verbatim>\<open>eligibility |= x\<close> with \<^verbatim>\<open>eligibility\<close> a \<^verbatim>\<open>bool\<close>:
  \<^verbatim>\<open>bool & None\<close> raises \<^verbatim>\<open>TypeError\<close>.\<close>

definition combine :: "bool \<Rightarrow> bool \<Rightarrow> bool option \<Rightarrow> error + bool" where
  "combine ra eligibility x =
     (case x of
        None \<Rightarrow> Inl TypeError
      | Some b \<Rightarrow> Inr (if ra then eligibility \<and> b else eligibility \<or> b))"

subsection \<open>Rule.calc\<close>

definition SQL_head :: string where
  "SQL_head = ''with source as (''"

definition SQL_tail :: string where
  "SQL_tail =
     '')\<newline>'' @
     ''              select (source.result).eligible,\<newline>'' @
     ''                     (source.result).explanation,\<newline>'' @
     ''                     ((source.result).limitation).end_date,\<newline>'' @
     ''                     ((source.result).limitation).normal,\<newline>'' @
     ''                     ((source.result).limitation).description,\<newline>'' @
     ''                     ((source.result).limitation).explanation AS limitation_explanation\<newline>'' @
     ''              from source''"

text \<open>\<^verbatim>\<open>str(self.code)\<close>: the column is nullable, and \<^verbatim>\<open>'%s' % None\<close> is \<^verbatim>\<open>'None'\<close>.\<close>

definition code_text :: "rule \<Rightarrow> string" where
  "code_text r = (case code r of None \<Rightarrow> ''None'' | Some c \<Rightarrow> c)"

text \<open>\<^verbatim>\<open>self._SQL % (source_clause, self.code)\<close>: the two arguments are put in as they
  are, between the fixed parts of \<^verbatim>\<open>_SQL\<close>.\<close>

definition statement :: "rule \<Rightarrow> string \<Rightarrow> string" where
  "statement r source_clause = SQL_head @ source_clause @ '' '' @ code_text r @ SQL_tail"

definition error_msg :: "rule \<Rightarrow> string \<Rightarrow> string \<Rightarrow> string" where
  "error_msg r exc sql =
     ''Error executing rule '' @ rule_name r @ ''\<newline>'' @ exc @
     ''\<newline>\<newline> in sql:\<newline>\<newline>'' @ sql"

definition Rule_calc :: "db \<Rightarrow> rule \<Rightarrow> string \<Rightarrow> string list \<Rightarrow> error + result" where
  "Rule_calc db r source_clause source_data =
     (let sql = statement r source_clause in
      case db sql source_data of
        Raises exc \<Rightarrow> Inl (DataError (error_msg r exc sql))
      | Cursor rows \<Rightarrow>
          (case fetchone rows of
             None \<Rightarrow> Inl TypeError
           | Some findings \<Rightarrow>
               Inr (RuleResult (col_eligible findings) (col_explanation findings)
                 (if \<not> truthy_date (col_end_date findings)
                     \<and> \<not> truthy_text (col_description findings)
                  then None
                  else Some \<lparr> end_date = col_end_date findings,
                              normal = col_normal findings,
                              description = col_description findings,
                              lim_explanation = col_limitation_explanation findings \<rparr>))))"

subsection \<open>Node.calc\<close>

text \<open>The state of the two loops of \<^verbatim>\<open>Node.calc\<close>: \<^verbatim>\<open>eligibility\<close> and the three
  entries \<^verbatim>\<open>explanation\<close>, \<^verbatim>\<open>limitation\<close>, \<^verbatim>\<open>subfindings\<close> of \<^verbatim>\<open>node_result\<close>.\<close>

type_synonym acc = "bool \<times> expl list \<times> lim list \<times> (string \<times> result) list"

text \<open>\<^verbatim>\<open>if r['eligible'] and r['limitation']: node_result['limitation'].append(r['limitation'])\<close>\<close>

definition append_limitation :: "result \<Rightarrow> lim list \<Rightarrow> lim list" where
  "append_limitation r ls =
     (case limitation_of r of
        None \<Rightarrow> ls
      | Some l \<Rightarrow> if truthy_bool (eligible r) \<and> truthy_lim (Some l) then ls @ [l] else ls)"

text \<open>The loop over \<^verbatim>\<open>self.rule_set.all()\<close>.\<close>

fun calc_rules :: "db \<Rightarrow> bool \<Rightarrow> rule list \<Rightarrow> string \<Rightarrow> string list \<Rightarrow> acc \<Rightarrow> error + acc" where
  "calc_rules db ra [] sc sd a = Inr a"
| "calc_rules db ra (r # rs) sc sd (el, ex, li, sf) =
     (case Rule_calc db r sc sd of
        Inl e \<Rightarrow> Inl e
      | Inr rule_result \<Rightarrow>
          (case combine ra el (eligible rule_result) of
             Inl e \<Rightarrow> Inl e
           | Inr el' \<Rightarrow>
               calc_rules db ra rs sc sd
                 (el', ex @ [explanation rule_result], append_limitation rule_result li,
                  AList.update (rule_name r) rule_result sf)))"

text \<open>\<^verbatim>\<open>Node.calc\<close> with the loop over \<^verbatim>\<open>self.node_set.all()\<close>.\<close>

fun Node_calc :: "db \<Rightarrow> node \<Rightarrow> string \<Rightarrow> string list \<Rightarrow> error + result"
  and calc_nodes :: "db \<Rightarrow> bool \<Rightarrow> node list \<Rightarrow> string \<Rightarrow> string list \<Rightarrow> acc \<Rightarrow> error + acc"
where
  "Node_calc db (Node nm ra ns rs) sc sd =
     (case calc_nodes db ra ns sc sd (ra, [], [], []) of
        Inl e \<Rightarrow> Inl e
      | Inr a \<Rightarrow>
          (case calc_rules db ra rs sc sd a of
             Inl e \<Rightarrow> Inl e
           | Inr (el, ex, li, sf) \<Rightarrow> Inr (NodeResult el ex li sf)))"
| "calc_nodes db ra [] sc sd a = Inr a"
| "calc_nodes db ra (n # ns) sc sd (el, ex, li, sf) =
     (case Node_calc db n sc sd of
        Inl e \<Rightarrow> Inl e
      | Inr child_node_result \<Rightarrow>
          (case combine ra el (eligible child_node_result) of
             Inl e \<Rightarrow> Inl e
           | Inr el' \<Rightarrow>
               calc_nodes db ra ns sc sd
                 (el', ex @ [explanation child_node_result],
                  append_limitation child_node_result li,
                  AList.update (node_name n) child_node_result sf)))"

section \<open>Payloads, source clauses and reports\<close>

subsection \<open>JSON values\<close>

text \<open>
  A payload is what the request layer parsed from JSON: \<^verbatim>\<open>None\<close>, \<^verbatim>\<open>bool\<close>, \<^verbatim>\<open>int\<close>,
  \<^verbatim>\<open>str\<close>, \<^verbatim>\<open>list\<close> and \<^verbatim>\<open>dict\<close> with string keys. Numbers with a fraction are not
  represented. A \<^verbatim>\<open>dict\<close> keeps its keys in insertion order and holds each key once.
\<close>

datatype json =
    JNull | JBool bool | JInt int | JStr string | JList "json list"
  | JObj "(string \<times> json) list"

type_synonym dict = "(string \<times> json) list"

text \<open>\<^verbatim>\<open>key in d\<close>\<close>

definition has_key :: "dict \<Rightarrow> string \<Rightarrow> bool" where
  "has_key d k = (k \<in> set (map fst d))"

text \<open>\<^verbatim>\<open>d.pop(key)\<close>: the value and the dictionary without the key; \<^verbatim>\<open>KeyError\<close> and an
  unchanged dictionary when the key is missing.\<close>

definition pop :: "string \<Rightarrow> dict \<Rightarrow> error + json \<times> dict" where
  "pop k d = (case map_of d k of None \<Rightarrow> Inl (KeyError k) | Some v \<Rightarrow> Inr (v, AList.delete k d))"

text \<open>\<^verbatim>\<open>for x in v\<close>: a list gives its elements, a string its characters, a dictionary its
  keys; \<^verbatim>\<open>None\<close>, booleans and numbers are not iterable.\<close>

fun iterate :: "json \<Rightarrow> error + json list" where
  "iterate (JList xs) = Inr xs"
| "iterate (JStr s) = Inr (map (\<lambda>c. JStr [c]) s)"
| "iterate (JObj kvs) = Inr (map (\<lambda>(k, v). JStr k) kvs)"
| "iterate JNull = Inl TypeError"
| "iterate (JBool b) = Inl TypeError"
| "iterate (JInt n) = Inl TypeError"

text \<open>
  \<^verbatim>\<open>d.update(x)\<close>. A dictionary \<open>x\<close> is assigned entry by entry. Any other \<open>x\<close> is read as
  a sequence of pairs: an empty string or list changes nothing; the first element of a
  non-empty string is a string of length one, not a pair, and \<^verbatim>\<open>ValueError\<close> is raised;
  \<^verbatim>\<open>None\<close>, booleans and numbers raise \<^verbatim>\<open>TypeError\<close>. A non-empty list is a sequence of
  pairs only when each element has two members, and its keys need not be strings: this
  case is left out of the embedding.
\<close>

fun dict_update :: "dict \<Rightarrow> json \<Rightarrow> error + dict" where
  "dict_update d (JObj kvs) = Inr (fold (\<lambda>(k, v). AList.update k v) kvs d)"
| "dict_update d (JStr []) = Inr d"
| "dict_update d (JStr (c # cs)) = Inl ValueError"
| "dict_update d (JList []) = Inr d"
| "dict_update d (JList (x # xs)) = Inl Unmodelled"
| "dict_update d JNull = Inl TypeError"
| "dict_update d (JBool b) = Inl TypeError"
| "dict_update d (JInt n) = Inl TypeError"

subsection \<open>What the model takes from outside\<close>

text \<open>
  \<^item> \<open>execute\<close>: the database behind \<^verbatim>\<open>connection.cursor()\<close>.
  \<^item> \<open>source_fragments\<close>: the pairs \<^verbatim>\<open>(source_sql, source_data)\<close> that the generator
    \<^verbatim>\<open>utils.values_from_json(raw, schema=self.schema)\<close> yields for a record, or the exception
    it raises. The module \<^verbatim>\<open>rules_server/utils.py\<close> is not part of the sources at hand. A
    bound value is kept by the text \<^verbatim>\<open>'%s' % value\<close> gives for it.
  \<^item> \<open>int_of_str\<close>: Python's \<^verbatim>\<open>int(s)\<close> for a string \<open>s\<close>, \<open>None\<close> when it raises
    \<^verbatim>\<open>ValueError\<close>.
\<close>

record world =
  execute :: db
  source_fragments :: "dict \<Rightarrow> error + (string \<times> string) list"
  int_of_str :: "string \<Rightarrow> int option"

text \<open>
  A \<^verbatim>\<open>Ruleset\<close> row with the results of its queries: \<open>null_sources\<close> is the JSON column
  (nullable; each fallback definition is kept by its text), \<open>root_nodes\<close> is
  \<^verbatim>\<open>self.node_set.filter(parent__isnull=True)\<close> and \<open>all_nodes\<close> is \<^verbatim>\<open>self.node_set.all()\<close>.
\<close>

record ruleset =
  null_sources :: "(string \<times> string) list option"
  root_nodes :: "node list"
  all_nodes :: "node list"

subsection \<open>Ruleset.flattened\<close>

text \<open>
  The generator pops \<^verbatim>\<open>'applicants'\<close> from the dictionary it is given when it is first
  advanced, and then yields one record per applicant: a copy of what is left of the
  payload, updated with the applicant. The model returns the payload as the generator
  leaves it together with the sequence of what each step gives: a record, or the
  exception that ends the generator (a consumer stops at the first exception).
\<close>

definition flattened :: "dict \<Rightarrow> dict \<times> (error + dict) list" where
  "flattened payload =
     (case pop ''applicants'' payload of
        Inl e \<Rightarrow> (payload, [Inl e])
      | Inr (applicants, payload') \<Rightarrow>
          (case iterate applicants of
             Inl e \<Rightarrow> (payload', [Inl e])
           | Inr xs \<Rightarrow> (payload', map (\<lambda>applicant. dict_update payload' applicant) xs)))"

subsection \<open>Ruleset.null_source_sql and Ruleset.values_from_json\<close>

text \<open>\<^verbatim>\<open>" %s as ( select * from %s ) " % (key, val)\<close>\<close>

definition fallback_fragment :: "string \<Rightarrow> string \<Rightarrow> string" where
  "fallback_fragment key val = '' '' @ key @ '' as ( select * from '' @ val @ '' ) ''"

fun null_source_items :: "(string \<times> string) list \<Rightarrow> dict \<Rightarrow> string list" where
  "null_source_items [] raw = []"
| "null_source_items ((key, val) # items) raw =
     (if \<not> has_key raw key then fallback_fragment key val # null_source_items items raw
      else null_source_items items raw)"

text \<open>\<^verbatim>\<open>self.null_sources.items()\<close> raises \<^verbatim>\<open>AttributeError\<close> when the column is null.\<close>

definition null_source_sql :: "ruleset \<Rightarrow> dict \<Rightarrow> error + string list" where
  "null_source_sql rs raw =
     (case null_sources rs of
        None \<Rightarrow> Inl AttributeError
      | Some items \<Rightarrow> Inr (null_source_items items raw))"

text \<open>\<^verbatim>\<open>sep.join(xs)\<close>\<close>

fun join :: "string \<Rightarrow> string list \<Rightarrow> string" where
  "join sep [] = []"
| "join sep [x] = x"
| "join sep (x # y # ys) = x @ sep @ join sep (y # ys)"

text \<open>
  \<^verbatim>\<open>(source_sql, source_data) = zip(*pairs)\<close> raises \<^verbatim>\<open>ValueError\<close> when there is no pair:
  \<^verbatim>\<open>zip()\<close> is empty and cannot be unpacked into two names. Otherwise \<^verbatim>\<open>source_sql\<close> is
  the tuple of the fragments and \<^verbatim>\<open>source_data\<close> the tuple of the bound values.
\<close>

definition values_from_json :: "world \<Rightarrow> ruleset \<Rightarrow> dict \<Rightarrow> error + string \<times> string list" where
  "values_from_json w rs raw =
     (case source_fragments w raw of
        Inl e \<Rightarrow> Inl e
      | Inr [] \<Rightarrow> Inl ValueError
      | Inr (p # ps) \<Rightarrow>
          (case null_source_sql rs raw of
             Inl e \<Rightarrow> Inl e
           | Inr fallbacks \<Rightarrow>
               Inr (''WITH '' @ join '',\<newline>'' (map fst (p # ps) @ fallbacks),
                    map snd (p # ps))))"

subsection \<open>Rule.sql, Node.sql and Ruleset.sql\<close>

text \<open>\<^verbatim>\<open>result.replace("%s", "'%s'")\<close>: every occurrence of the two characters \<^verbatim>\<open>%s\<close>, from
  the left, is put between single quotes.\<close>

fun quote_placeholders :: "string \<Rightarrow> string" where
  "quote_placeholders [] = []"
| "quote_placeholders [c] = [c]"
| "quote_placeholders (c # d # cs) =
     (if c = CHR ''%'' \<and> d = CHR ''s''
      then [CHR 0x27, CHR ''%'', CHR ''s'', CHR 0x27] @ quote_placeholders cs
      else c # quote_placeholders (d # cs))"

text \<open>
  \<^verbatim>\<open>fmt % args\<close> with \<open>args\<close> a tuple of strings: \<^verbatim>\<open>%s\<close> takes the next argument as it
  is, \<^verbatim>\<open>%%\<close> is a percent sign. \<^verbatim>\<open>TypeError\<close> is raised when the arguments run out or
  are not all used. Other conversions after \<^verbatim>\<open>%\<close> are left out of the embedding.
\<close>

fun py_format :: "string \<Rightarrow> string list \<Rightarrow> error + string" where
  "py_format [] [] = Inr []"
| "py_format [] (a # as) = Inl TypeError"
| "py_format [c] as = (if c = CHR ''%'' then Inl ValueError else map_sum id ((#) c) (py_format [] as))"
| "py_format (c # d # cs) as =
     (if c = CHR ''%'' then
        (if d = CHR ''s'' then
           (case as of
              [] \<Rightarrow> Inl TypeError
            | a # as' \<Rightarrow> map_sum id ((@) a) (py_format cs as'))
         else if d = CHR ''%'' then map_sum id ((#) CHR ''%'') (py_format cs as)
         else Inl Unmodelled)
      else map_sum id ((#) c) (py_format (d # cs) as))"

definition Rule_sql :: "rule \<Rightarrow> string \<Rightarrow> string list \<Rightarrow> error + string" where
  "Rule_sql r source_clause source_data =
     py_format (quote_placeholders (statement r source_clause)) source_data"

text \<open>The generators \<^verbatim>\<open>Node.sql\<close> and \<^verbatim>\<open>Ruleset.sql\<close>, run to their end: the list of
  what they yield, or the exception that ends them.\<close>

fun Node_sql_rules :: "rule list \<Rightarrow> string \<Rightarrow> string list \<Rightarrow> error + string list" where
  "Node_sql_rules [] sc sd = Inr []"
| "Node_sql_rules (r # rs) sc sd =
     (case Rule_sql r sc sd of
        Inl e \<Rightarrow> Inl e
      | Inr s \<Rightarrow> map_sum id ((#) s) (Node_sql_rules rs sc sd))"

definition Node_sql :: "node \<Rightarrow> string \<Rightarrow> string list \<Rightarrow> error + string list" where
  "Node_sql n sc sd = Node_sql_rules (rule_set n) sc sd"

fun sql_nodes :: "node list \<Rightarrow> string \<Rightarrow> string list \<Rightarrow> error + string list" where
  "sql_nodes [] sc sd = Inr []"
| "sql_nodes (n # ns) sc sd =
     (case Node_sql n sc sd of
        Inl e \<Rightarrow> Inl e
      | Inr ss \<Rightarrow> map_sum id ((@) ss) (sql_nodes ns sc sd))"

fun sql_applicants :: "world \<Rightarrow> ruleset \<Rightarrow> (error + dict) list \<Rightarrow> error + string list" where
  "sql_applicants w rs [] = Inr []"
| "sql_applicants w rs (Inl e # ys) = Inl e"
| "sql_applicants w rs (Inr applicant # ys) =
     (case values_from_json w rs applicant of
        Inl e \<Rightarrow> Inl e
      | Inr (source_clause, source_data) \<Rightarrow>
          (case sql_nodes (all_nodes rs) source_clause source_data of
             Inl e \<Rightarrow> Inl e
           | Inr ss \<Rightarrow> map_sum id ((@) ss) (sql_applicants w rs ys)))"

definition Ruleset_sql :: "world \<Rightarrow> ruleset \<Rightarrow> dict \<Rightarrow> dict \<times> (error + string list)" where
  "Ruleset_sql w rs application =
     (case flattened application of (application', ys) \<Rightarrow> (application', sql_applicants w rs ys))"

subsection \<open>Ruleset.calc\<close>

text \<open>The report of one applicant: \<^verbatim>\<open>eligible\<close>, \<^verbatim>\<open>requirements\<close> and the two entries
  \<^verbatim>\<open>applicable\<close> and \<^verbatim>\<open>findings\<close> of \<^verbatim>\<open>categories\<close>.\<close>

record report =
  rep_eligible :: bool
  requirements :: "(string \<times> result) list"
  applicable :: "string list"
  findings :: "(string \<times> result) list"

text \<open>\<^verbatim>\<open>int(x)\<close>\<close>

fun py_int :: "world \<Rightarrow> json \<Rightarrow> error + int" where
  "py_int w (JInt n) = Inr n"
| "py_int w (JBool b) = Inr (if b then 1 else 0)"
| "py_int w (JStr s) = (case int_of_str w s of None \<Rightarrow> Inl ValueError | Some n \<Rightarrow> Inr n)"
| "py_int w JNull = Inl TypeError"
| "py_int w (JList xs) = Inl TypeError"
| "py_int w (JObj kvs) = Inl TypeError"

text \<open>\<^verbatim>\<open>int(applicant['id'])\<close>\<close>

definition applicant_id :: "world \<Rightarrow> dict \<Rightarrow> error + int" where
  "applicant_id w applicant =
     (case map_of applicant ''id'' of
        None \<Rightarrow> Inl (KeyError ''id'')
      | Some v \<Rightarrow> py_int w v)"

text \<open>The loop over the root nodes: its state is \<^verbatim>\<open>eligibility\<close> and
  \<^verbatim>\<open>result['requirements']\<close>.\<close>

fun calc_roots ::
  "db \<Rightarrow> node list \<Rightarrow> string \<Rightarrow> string list \<Rightarrow> bool \<times> (string \<times> result) list
     \<Rightarrow> error + bool \<times> (string \<times> result) list" where
  "calc_roots db [] sc sd st = Inr st"
| "calc_roots db (n # ns) sc sd (eligibility, reqs) =
     (case Node_calc db n sc sd of
        Inl e \<Rightarrow> Inl e
      | Inr node_result \<Rightarrow>
          (if node_name n \<noteq> ''categories'' then
             (case combine True eligibility (eligible node_result) of
                Inl e \<Rightarrow> Inl e
              | Inr eligibility' \<Rightarrow>
                  calc_roots db ns sc sd
                    (eligibility', AList.update (node_name n) node_result reqs))
           else calc_roots db ns sc sd
                  (eligibility, AList.update (node_name n) node_result reqs)))"

text \<open>\<^verbatim>\<open>categories = result['requirements'].pop('categories', {})\<close> followed by
  \<^verbatim>\<open>categories.get('subfindings', {})\<close>.\<close>

definition categories_subfindings :: "(string \<times> result) list \<Rightarrow> (string \<times> result) list" where
  "categories_subfindings reqs =
     (case map_of reqs ''categories'' of None \<Rightarrow> [] | Some categories \<Rightarrow> subfindings categories)"

text \<open>\<^verbatim>\<open>[key for (key, val) in d.items() if val['eligible'] ]\<close>\<close>

definition category_names :: "(string \<times> result) list \<Rightarrow> string list" where
  "category_names d = map fst (filter (\<lambda>(key, val). truthy_bool (eligible val)) d)"

text \<open>The body of the loop over the applicants: the key and the report that are stored in
  \<^verbatim>\<open>overall_result\<close>.\<close>

definition applicant_report :: "world \<Rightarrow> ruleset \<Rightarrow> dict \<Rightarrow> error + int \<times> report" where
  "applicant_report w rs applicant =
     (case values_from_json w rs applicant of
        Inl e \<Rightarrow> Inl e
      | Inr (source_clause, source_data) \<Rightarrow>
          (case calc_roots (execute w) (root_nodes rs) source_clause source_data (True, []) of
             Inl e \<Rightarrow> Inl e
           | Inr (eligibility, reqs) \<Rightarrow>
               (case applicant_id w applicant of
                  Inl e \<Rightarrow> Inl e
                | Inr key \<Rightarrow>
                    Inr (key,
                      \<lparr> rep_eligible = eligibility,
                        requirements = AList.delete ''categories'' reqs,
                        applicable = category_names (categories_subfindings reqs),
                        findings = categories_subfindings reqs \<rparr>))))"

fun calc_applicants ::
  "world \<Rightarrow> ruleset \<Rightarrow> (error + dict) list \<Rightarrow> (int \<times> report) list
     \<Rightarrow> error + (int \<times> report) list" where
  "calc_applicants w rs [] overall_result = Inr overall_result"
| "calc_applicants w rs (Inl e # ys) overall_result = Inl e"
| "calc_applicants w rs (Inr applicant # ys) overall_result =
     (case applicant_report w rs applicant of
        Inl e \<Rightarrow> Inl e
      | Inr (key, result) \<Rightarrow>
          calc_applicants w rs ys (AList.update key result overall_result))"

text \<open>\<^verbatim>\<open>Ruleset.calc\<close>: the application as the call leaves it, and what the call returns or
  raises.\<close>

definition Ruleset_calc ::
  "world \<Rightarrow> ruleset \<Rightarrow> dict \<Rightarrow> dict \<times> (error + (int \<times> report) list)" where
  "Ruleset_calc w rs application =
     (case flattened application of
        (application', ys) \<Rightarrow> (application', calc_applicants w rs ys []))"

subsection \<open>Quoting of literals\<close>

text \<open>A value between single quotes, as it is.\<close>

definition wrap_quotes :: "string \<Rightarrow> string" where
  "wrap_quotes v = CHR 0x27 # v @ [CHR 0x27]"

text \<open>
  The specification asks that \<^verbatim>\<open>Rule.sql\<close> inline every bound value through a safe
  quoting function. \<open>sql_quote_literal\<close> is the quoting of a string literal in SQL: the
  value between single quotes, each single quote inside it doubled. \<open>Rule_sql_quoted\<close> is
  the rendering the specification describes: the statement with each placeholder filled
  by the quoted literal of its value. Both follow the specification, not the code.
\<close>

definition sql_quote_literal :: "string \<Rightarrow> string" where
  "sql_quote_literal v =
     CHR 0x27 # concat (map (\<lambda>c. if c = CHR 0x27 then [CHR 0x27, CHR 0x27] else [c]) v)
       @ [CHR 0x27]"

definition Rule_sql_quoted :: "rule \<Rightarrow> string \<Rightarrow> string list \<Rightarrow> error + string" where
  "Rule_sql_quoted r source_clause source_data =
     py_format (statement r source_clause) (map sql_quote_literal source_data)"

text \<open>A text in which every percent sign is the start of a placeholder \<^verbatim>\<open>%s\<close>.\<close>

fun plain_placeholders :: "string \<Rightarrow> bool" where
  "plain_placeholders [] = True"
| "plain_placeholders [c] = (c \<noteq> CHR ''%'')"
| "plain_placeholders (c # d # cs) =
     (if c = CHR ''%'' then d = CHR ''s'' \<and> plain_placeholders cs
      else plain_placeholders (d # cs))"

section \<open>The type index of a syntax schema\<close>

subsection \<open>SyntaxSchema._col_data_type\<close>

definition JSONSCHEMA_TO_PG_TYPES :: "(string \<times> string) list" where
  "JSONSCHEMA_TO_PG_TYPES =
     [(''integer'', ''integer''),
      (''number'', ''numeric''),
      (''string'', ''text''),
      (''date'', ''date''),
      (''boolean'', ''boolean'')]"

text \<open>\<^verbatim>\<open>self._JSONSCHEMA_TO_PG_TYPES.get(data_type)\<close>: a list or a dictionary cannot be hashed
  and raises \<^verbatim>\<open>TypeError\<close>; any other value that is not a key gives \<^verbatim>\<open>None\<close>.\<close>

fun table_get :: "json \<Rightarrow> error + string option" where
  "table_get (JStr s) = Inr (map_of JSONSCHEMA_TO_PG_TYPES s)"
| "table_get (JList xs) = Inl TypeError"
| "table_get (JObj kvs) = Inl TypeError"
| "table_get JNull = Inr None"
| "table_get (JBool b) = Inr None"
| "table_get (JInt n) = Inr None"

text \<open>The branch \<^verbatim>\<open>isinstance(data_type, list)\<close>: \<^verbatim>\<open>data_type[0]\<close> raises \<^verbatim>\<open>IndexError\<close> on
  the empty list.\<close>

definition narrow_union :: "json list \<Rightarrow> error + json" where
  "narrow_union ts =
     (let data_type = filter (\<lambda>dt. dt \<noteq> JStr ''null'') ts in
      if length data_type > 1 then Inr (JStr ''text'')
      else (case data_type of [] \<Rightarrow> Inl IndexError | dt # _ \<Rightarrow> Inr dt))"

definition col_data_type :: "dict \<Rightarrow> error + string option" where
  "col_data_type col_data =
     (if map_of col_data ''format'' = Some (JStr ''date-time'') then Inr (Some ''date'')
      else if map_of col_data ''$ref'' = Some (JStr ''#/definitions/ynexception'')
        then Inr (Some ''text'')
      else
        (let data_type = (case map_of col_data ''type'' of None \<Rightarrow> JStr ''text'' | Some t \<Rightarrow> t) in
         case data_type of
           JList ts \<Rightarrow> (case narrow_union ts of Inl e \<Rightarrow> Inl e | Inr dt \<Rightarrow> table_get dt)
         | _ \<Rightarrow> table_get data_type))"

subsection \<open>SyntaxSchema.data_types\<close>

text \<open>
  The inner loop over \<^verbatim>\<open>node.get('properties', {}).items()\<close>. A property that is not a
  dictionary has no \<^verbatim>\<open>get\<close> and raises \<^verbatim>\<open>AttributeError\<close>. An entry is written only when
  the type is true in Python's sense, that is, not \<^verbatim>\<open>None\<close> (the types of the table are
  non-empty strings).
\<close>

fun index_properties ::
  "(string \<times> json) list \<Rightarrow> (string \<times> string) list \<Rightarrow> error + (string \<times> string) list" where
  "index_properties [] result = Inr result"
| "index_properties ((col_name, JObj col_data) # props) result =
     (case col_data_type col_data of
        Inl e \<Rightarrow> Inl e
      | Inr None \<Rightarrow> index_properties props result
      | Inr (Some t) \<Rightarrow> index_properties props (AList.update col_name t result))"
| "index_properties ((col_name, other) # props) result = Inl AttributeError"

text \<open>\<^verbatim>\<open>node.get('properties', {})\<close> of a dictionary \<open>node\<close>; \<^verbatim>\<open>.items()\<close> exists on a
  dictionary only.\<close>

definition properties_of :: "dict \<Rightarrow> error + (string \<times> json) list" where
  "properties_of node =
     (case map_of node ''properties'' of
        None \<Rightarrow> Inr []
      | Some (JObj props) \<Rightarrow> Inr props
      | Some other \<Rightarrow> Inl AttributeError)"

text \<open>\<^verbatim>\<open>data_types\<close> over the dictionaries that \<^verbatim>\<open>self.walk()\<close> yields, given as a list.\<close>

fun data_types_from :: "dict list \<Rightarrow> (string \<times> string) list \<Rightarrow> error + (string \<times> string) list" where
  "data_types_from [] result = Inr result"
| "data_types_from (node # nodes) result =
     (case properties_of node of
        Inl e \<Rightarrow> Inl e
      | Inr props \<Rightarrow>
          (case index_properties props result of
             Inl e \<Rightarrow> Inl e
           | Inr result' \<Rightarrow> data_types_from nodes result'))"

definition data_types :: "dict list \<Rightarrow> error + (string \<times> string) list" where
  "data_types walked = data_types_from walked []"

section \<open>Notions used in the statements\<close>

subsection \<open>The children of a node and their outcomes\<close>

text \<open>The evaluations \<^verbatim>\<open>Node.calc\<close> makes, in the order it makes them: every child node of
  \<^verbatim>\<open>self.node_set.all()\<close>, then every rule of \<^verbatim>\<open>self.rule_set.all()\<close>.\<close>

definition child_results :: "db \<Rightarrow> node \<Rightarrow> string \<Rightarrow> string list \<Rightarrow> (error + result) list" where
  "child_results db n sc sd =
     map (\<lambda>c. Node_calc db c sc sd) (node_set n) @ map (\<lambda>r. Rule_calc db r sc sd) (rule_set n)"

text \<open>The rules of a tree, in the order \<^verbatim>\<open>Node.calc\<close> reaches them.\<close>

fun tree_rules :: "node \<Rightarrow> rule list" where
  "tree_rules (Node nm ra ns rs) = concat (map tree_rules ns) @ rs"

text \<open>The two loops of \<^verbatim>\<open>Node.calc\<close> have the same body once the child's name and
  outcome are given; \<open>aggregate\<close> is that body over a list of named outcomes. It is used
  in the proofs only.\<close>

fun aggregate :: "bool \<Rightarrow> (string \<times> (error + result)) list \<Rightarrow> acc \<Rightarrow> error + acc" where
  "aggregate ra [] a = Inr a"
| "aggregate ra ((k, Inl e) # os) a = Inl e"
| "aggregate ra ((k, Inr r) # os) (el, ex, li, sf) =
     (case combine ra el (eligible r) of
        Inl e \<Rightarrow> Inl e
      | Inr el' \<Rightarrow> aggregate ra os
          (el', ex @ [explanation r], append_limitation r li, AList.update k r sf))"

definition outcomes :: "db \<Rightarrow> node \<Rightarrow> string \<Rightarrow> string list \<Rightarrow> (string \<times> (error + result)) list" where
  "outcomes db n sc sd =
     map (\<lambda>c. (node_name c, Node_calc db c sc sd)) (node_set n) @
     map (\<lambda>r. (rule_name r, Rule_calc db r sc sd)) (rule_set n)"

text \<open>The test \<^verbatim>\<open>r['eligible'] and r['limitation']\<close>.\<close>

definition carries :: "result \<Rightarrow> bool" where
  "carries r = (truthy_bool (eligible r) \<and> truthy_lim (limitation_of r))"

text \<open>Assigning a list of entries to a dictionary, in order.\<close>

definition store :: "(string \<times> result) list \<Rightarrow> (string \<times> result) list \<Rightarrow> (string \<times> result) list" where
  "store kvs d = fold (\<lambda>(k, v). AList.update k v) kvs d"

section \<open>A small rule set, used to run the definitions\<close>

text \<open>Three rules over one backend: \<open>A\<close> is eligible and has no limitation, \<open>B\<close> is not
  eligible and has one, \<open>C\<close> is eligible and has one with an end date only.\<close>

definition row_A :: row where
  "row_A = \<lparr> col_eligible = Some True, col_explanation = Some ''income ok'',
     col_end_date = None, col_normal = None, col_description = Some [],
     col_limitation_explanation = None \<rparr>"

definition row_B :: row where
  "row_B = \<lparr> col_eligible = Some False, col_explanation = Some ''too high'',
     col_end_date = None, col_normal = Some True, col_description = Some ''over income'',
     col_limitation_explanation = Some ''see table'' \<rparr>"

definition row_C :: row where
  "row_C = \<lparr> col_eligible = Some True, col_explanation = Some ''resident'',
     col_end_date = Some (Date 2019 1 31), col_normal = Some False, col_description = None,
     col_limitation_explanation = None \<rparr>"

definition rule_A :: rule where "rule_A = Rule ''A'' (Some ''select a(source)'')"
definition rule_B :: rule where "rule_B = Rule ''B'' (Some ''select b(source)'')"
definition rule_C :: rule where "rule_C = Rule ''C'' (Some ''select c(source)'')"

definition sc0 :: string where
  "sc0 = ''WITH income as (select * from json_to_recordset(%s))''"

definition db_demo :: db where
  "db_demo sql params =
     (if sql = statement rule_A sc0 then Cursor [row_A]
      else if sql = statement rule_B sc0 then Cursor [row_B]
      else if sql = statement rule_C sc0 then Cursor [row_C]
      else Raises ''syntax error'')"

text \<open>A backend on which rule \<open>B\<close> cannot be executed.\<close>

definition db_broken :: db where
  "db_broken sql params =
     (if sql = statement rule_A sc0 then Cursor [row_A]
      else if sql = statement rule_C sc0 then Cursor [row_C]
      else Raises ''function b(record) does not exist'')"

definition node_AB :: node where
  "node_AB = Node ''income'' False [] [rule_A, rule_B]"

definition node_general :: node where
  "node_general = Node ''general'' True [node_AB] [rule_C]"

definition node_categories :: node where
  "node_categories = Node ''categories'' False [node_AB] [rule_B]"

definition result_A :: result where
  "result_A = RuleResult (Some True) (Some ''income ok'') None"

definition result_B :: result where
  "result_B = RuleResult (Some False) (Some ''too high'')
     (Some \<lparr> end_date = None, normal = Some True, description = Some ''over income'',
             lim_explanation = Some ''see table'' \<rparr>)"

definition result_C :: result where
  "result_C = RuleResult (Some True) (Some ''resident'')
     (Some \<lparr> end_date = Some (Date 2019 1 31), normal = Some False, description = None,
             lim_explanation = None \<rparr>)"

definition result_AB :: result where
  "result_AB = NodeResult True [ExplText (Some ''income ok''), ExplText (Some ''too high'')] []
     [(''A'', result_A), (''B'', result_B)]"

definition result_general :: result where
  "result_general = NodeResult True
     [ExplList [ExplText (Some ''income ok''), ExplText (Some ''too high'')],
      ExplText (Some ''resident'')]
     [LimRec \<lparr> end_date = Some (Date 2019 1 31), normal = Some False, description = None,
               lim_explanation = None \<rparr>]
     [(''income'', result_AB), (''C'', result_C)]"

definition result_categories :: result where
  "result_categories = NodeResult True
     [ExplList [ExplText (Some ''income ok''), ExplText (Some ''too high'')],
      ExplText (Some ''too high'')]
     []
     [(''income'', result_AB), (''B'', result_B)]"

text \<open>A world for the small rule set. Its \<open>source_fragments\<close> gives one fragment for an
  \<^verbatim>\<open>income\<close> entry of a record and none otherwise; it stands for the helper only in the
  runs below.\<close>

definition demo_fragments :: "dict \<Rightarrow> error + (string \<times> string) list" where
  "demo_fragments raw =
     (if has_key raw ''income''
      then Inr [(''income as (select * from json_to_recordset(%s))'', ''[{}]'')]
      else Inr [])"

definition demo_world :: world where
  "demo_world = \<lparr> execute = db_demo, source_fragments = demo_fragments,
                   int_of_str = (\<lambda>s. None) \<rparr>"

definition broken_world :: world where
  "broken_world = \<lparr> execute = db_broken, source_fragments = demo_fragments,
                     int_of_str = (\<lambda>s. None) \<rparr>"

definition demo_ruleset :: ruleset where
  "demo_ruleset = \<lparr> null_sources = Some [(''income'', ''income_default'')],
                     root_nodes = [node_general, node_categories],
                     all_nodes = [node_general, node_categories] \<rparr>"

definition household_ruleset :: ruleset where
  "household_ruleset = \<lparr> null_sources = Some [(''household'', ''household_default''),
                                               (''income'', ''income_default'')],
                          root_nodes = [], all_nodes = [] \<rparr>"

definition record_7 :: dict where
  "record_7 = [(''state'', JStr ''AZ''), (''id'', JInt 7), (''income'', JList [])]"

definition application_7 :: dict where
  "application_7 =
     [(''state'', JStr ''AZ''),
      (''applicants'', JList [JObj [(''id'', JInt 7), (''income'', JList [])] ]) ]"

definition report_7 :: report where
  "report_7 = \<lparr> rep_eligible = True,
                 requirements = [(''general'', result_general)],
                 applicable = [''income''],
                 findings = [(''income'', result_AB), (''B'', result_B)] \<rparr>"

definition error_B :: error where
  "error_B = DataError (''Error executing rule B\<newline>function b(record) does not exist'' @
     ''\<newline>\<newline> in sql:\<newline>\<newline>'' @ statement rule_B sc0)"

section \<open>Properties\<close>

subsection \<open>The loops of Node.calc\<close>

lemma calc_rules_aggregate:
  "calc_rules db ra rs sc sd a = aggregate ra (map (\<lambda>r. (rule_name r, Rule_calc db r sc sd)) rs) a"
proof (induction rs arbitrary: a)
  case Nil
  show ?case by simp
next
  case (Cons r rs a)
  obtain el ex li sf where a: "a = (el, ex, li, sf)" by (cases a) auto
  show ?case unfolding a
    by (cases "Rule_calc db r sc sd") (simp_all add: Cons.IH split: sum.splits)
qed

lemma calc_nodes_aggregate:
  "calc_nodes db ra ns sc sd a = aggregate ra (map (\<lambda>n. (node_name n, Node_calc db n sc sd)) ns) a"
proof (induction ns arbitrary: a)
  case Nil
  show ?case by simp
next
  case (Cons n ns a)
  obtain el ex li sf where a: "a = (el, ex, li, sf)" by (cases a) auto
  show ?case unfolding a
    by (cases "Node_calc db n sc sd") (simp_all add: Cons.IH split: sum.splits)
qed

lemma aggregate_append:
  "aggregate ra (os @ ps) a = (case aggregate ra os a of Inl e \<Rightarrow> Inl e | Inr b \<Rightarrow> aggregate ra ps b)"
proof (induction ra os a rule: aggregate.induct)
  case (1 ra a)
  show ?case by simp
next
  case (2 ra k e os a)
  show ?case by simp
next
  case (3 ra k r os el ex li sf)
  then show ?case by (simp split: sum.splits)
qed

lemma Node_calc_aggregate:
  "Node_calc db n sc sd =
     (case aggregate (requires_all n) (outcomes db n sc sd) (requires_all n, [], [], []) of
        Inl e \<Rightarrow> Inl e
      | Inr (el, ex, li, sf) \<Rightarrow> Inr (NodeResult el ex li sf))"
  by (cases n)
    (simp add: outcomes_def aggregate_append calc_rules_aggregate calc_nodes_aggregate
      split: sum.splits)

lemma append_limitation_Some:
  "map Some (append_limitation r ls) =
     map Some ls @ map limitation_of (filter carries [r])"
  by (cases "limitation_of r") (auto simp: append_limitation_def carries_def)

lemma aggregate_Inr:
  "aggregate ra os (el, ex, li, sf) = Inr (el', ex', li', sf') \<Longrightarrow>
   \<exists>rs. map snd os = map Inr rs
     \<and> (\<forall>r\<in>set rs. eligible r \<noteq> None)
     \<and> el' = (if ra then el \<and> (\<forall>r\<in>set rs. eligible r = Some True)
              else el \<or> (\<exists>r\<in>set rs. eligible r = Some True))
     \<and> ex' = ex @ map explanation rs
     \<and> map Some li' = map Some li @ map limitation_of (filter carries rs)
     \<and> sf' = store (zip (map fst os) rs) sf"
proof (induction os arbitrary: el ex li sf)
  case Nil
  then show ?case by (simp add: store_def)
next
  case (Cons p os el ex li sf)
  obtain k q where p: "p = (k, q)" by (cases p)
  from Cons.prems p obtain r where q: "q = Inr r" by (cases q) auto
  from Cons.prems p q obtain b where b: "eligible r = Some b"
    by (cases "eligible r") (auto simp: combine_def)
  let ?el = "if ra then el \<and> b else el \<or> b"
  from Cons.prems p q b have rest: "aggregate ra os
      (?el, ex @ [explanation r], append_limitation r li, AList.update k r sf)
      = Inr (el', ex', li', sf')"
    by (simp add: combine_def)
  from Cons.IH[OF rest] obtain rs where rs:
    "map snd os = map Inr rs" "\<forall>r\<in>set rs. eligible r \<noteq> None"
    "el' = (if ra then ?el \<and> (\<forall>r\<in>set rs. eligible r = Some True)
              else ?el \<or> (\<exists>r\<in>set rs. eligible r = Some True))"
    "ex' = (ex @ [explanation r]) @ map explanation rs"
    "map Some li' = map Some (append_limitation r li) @ map limitation_of (filter carries rs)"
    "sf' = store (zip (map fst os) rs) (AList.update k r sf)"
    by blast
  show ?case
  proof (intro exI[of _ "r # rs"] conjI)
    show "map snd (p # os) = map Inr (r # rs)" using rs(1) p q by simp
    show "\<forall>r\<in>set (r # rs). eligible r \<noteq> None" using rs(2) b by simp
    show "el' = (if ra then el \<and> (\<forall>r\<in>set (r # rs). eligible r = Some True)
              else el \<or> (\<exists>r\<in>set (r # rs). eligible r = Some True))"
      using rs(3) b by auto
    show "ex' = ex @ map explanation (r # rs)" using rs(4) by simp
    show "map Some li' = map Some li @ map limitation_of (filter carries (r # rs))"
      using rs(5) by (simp add: append_limitation_Some)
    show "sf' = store (zip (map fst (p # os)) (r # rs)) sf"
      using rs(6) p by (simp add: store_def)
  qed
qed

lemma aggregate_total:
  "(\<forall>p\<in>set os. \<exists>r. snd p = Inr r \<and> eligible r \<noteq> None) \<Longrightarrow> \<exists>b. aggregate ra os a = Inr b"
proof (induction ra os a rule: aggregate.induct)
  case (1 ra a)
  show ?case by (rule exI[of _ a]) simp
next
  case (2 ra k e os a)
  then show ?case by simp
next
  case (3 ra k r os el ex li sf)
  from "3.prems" obtain b where b: "eligible r = Some b" by auto
  have c: "combine ra el (eligible r) = Inr (if ra then el \<and> b else el \<or> b)"
    by (simp add: combine_def b)
  from "3.IH"[OF c] "3.prems" show ?case by (simp add: c)
qed

lemma aggregate_first_error:
  "(\<forall>r\<in>set oks. eligible (snd r) \<noteq> None) \<Longrightarrow>
   aggregate ra (map (\<lambda>(k, r). (k, Inr r)) oks @ (k, Inl e) # rest) a = Inl e"
proof (induction oks arbitrary: a)
  case Nil
  show ?case by simp
next
  case (Cons p oks a)
  obtain k' r where p: "p = (k', r)" by (cases p)
  obtain el ex li sf where a: "a = (el, ex, li, sf)" by (cases a) auto
  from Cons.prems p obtain b where b: "eligible r = Some b" by auto
  show ?case using Cons.IH Cons.prems by (simp add: p a combine_def b)
qed

lemma aggregate_Inl:
  "aggregate ra os a = Inl e \<Longrightarrow>
   (\<exists>k. (k, Inl e) \<in> set os) \<or> (e = TypeError \<and> (\<exists>k r. (k, Inr r) \<in> set os \<and> eligible r = None))"
proof (induction ra os a rule: aggregate.induct)
  case (1 ra a)
  then show ?case by simp
next
  case (2 ra k e' os a)
  then show ?case by auto
next
  case (3 ra k r os el ex li sf)
  show ?case
  proof (cases "eligible r")
    case None
    with "3.prems" show ?thesis by (auto simp: combine_def)
  next
    case (Some b)
    have c: "combine ra el (eligible r) = Inr (if ra then el \<and> b else el \<or> b)"
      by (simp add: combine_def Some)
    from "3.prems" have "aggregate ra os (if ra then el \<and> b else el \<or> b, ex @ [explanation r],
        append_limitation r li, AList.update k r sf) = Inl e"
      by (simp add: c)
    from "3.IH"[OF c this] show ?thesis by auto
  qed
qed

lemma snd_outcomes: "map snd (outcomes db n sc sd) = child_results db n sc sd"
  by (simp add: outcomes_def child_results_def comp_def)

lemma Node_calc_Inr:
  assumes "Node_calc db n sc sd = Inr res"
  shows "\<exists>rs li. child_results db n sc sd = map Inr rs
     \<and> (\<forall>r\<in>set rs. eligible r \<noteq> None)
     \<and> res = NodeResult
          (if requires_all n then (\<forall>r\<in>set rs. eligible r = Some True)
           else (\<exists>r\<in>set rs. eligible r = Some True))
          (map explanation rs) li
          (store (zip (map fst (outcomes db n sc sd)) rs) [])
     \<and> map Some li = map limitation_of (filter carries rs)"
proof -
  from assms obtain el ex li sf where
    agg: "aggregate (requires_all n) (outcomes db n sc sd) (requires_all n, [], [], [])
            = Inr (el, ex, li, sf)"
    and res: "res = NodeResult el ex li sf"
    by (auto simp: Node_calc_aggregate split: sum.splits)
  from aggregate_Inr[OF agg] obtain rs where rs:
    "map snd (outcomes db n sc sd) = map Inr rs"
    "\<forall>r\<in>set rs. eligible r \<noteq> None"
    "el = (if requires_all n then requires_all n \<and> (\<forall>r\<in>set rs. eligible r = Some True)
              else requires_all n \<or> (\<exists>r\<in>set rs. eligible r = Some True))"
    "ex = [] @ map explanation rs"
    "map Some li = map Some [] @ map limitation_of (filter carries rs)"
    "sf = store (zip (map fst (outcomes db n sc sd)) rs) []"
    by blast
  show ?thesis
  proof (intro exI[of _ rs] exI[of _ li] conjI)
    show "child_results db n sc sd = map Inr rs" using rs(1) by (simp add: snd_outcomes)
    show "\<forall>r\<in>set rs. eligible r \<noteq> None" by (rule rs(2))
    show "res = NodeResult
          (if requires_all n then (\<forall>r\<in>set rs. eligible r = Some True)
           else (\<exists>r\<in>set rs. eligible r = Some True))
          (map explanation rs) li
          (store (zip (map fst (outcomes db n sc sd)) rs) [])"
      using res rs(3,4,6) by (cases "requires_all n") simp_all
    show "map Some li = map limitation_of (filter carries rs)" using rs(5) by simp
  qed
qed

lemma Node_calc_flag_Some: "Node_calc db n sc sd = Inr res \<Longrightarrow> eligible res \<noteq> None"
  by (auto simp: Node_calc_aggregate split: sum.splits)

lemma Node_calc_total:
  "(\<forall>r\<in>set (tree_rules n). \<exists>rr. Rule_calc db r sc sd = Inr rr \<and> eligible rr \<noteq> None)
   \<Longrightarrow> \<exists>res. Node_calc db n sc sd = Inr res"
proof (induction n)
  case (Node nm ra ns rs)
  let ?n = "Node nm ra ns rs"
  have "\<forall>p\<in>set (outcomes db ?n sc sd). \<exists>r. snd p = Inr r \<and> eligible r \<noteq> None"
  proof
    fix p assume "p \<in> set (outcomes db ?n sc sd)"
    then consider c where "c \<in> set ns" "p = (node_name c, Node_calc db c sc sd)"
      | r where "r \<in> set rs" "p = (rule_name r, Rule_calc db r sc sd)"
      by (auto simp: outcomes_def)
    then show "\<exists>r. snd p = Inr r \<and> eligible r \<noteq> None"
    proof cases
      case 1
      from Node.prems 1(1) have
        "\<forall>r\<in>set (tree_rules c). \<exists>rr. Rule_calc db r sc sd = Inr rr \<and> eligible rr \<noteq> None"
        by auto
      from Node.IH[OF 1(1) this] obtain res where "Node_calc db c sc sd = Inr res" ..
      then show ?thesis using 1(2) Node_calc_flag_Some by fastforce
    next
      case 2
      with Node.prems show ?thesis by auto
    qed
  qed
  from aggregate_total[OF this] obtain b where
    "aggregate ra (outcomes db ?n sc sd) (ra, [], [], []) = Inr b" by blast
  then show ?case by (cases b) (simp add: Node_calc_aggregate)
qed

lemma Node_calc_Inr_rules:
  "Node_calc db n sc sd = Inr res \<Longrightarrow>
   \<forall>r\<in>set (tree_rules n). \<exists>rr. Rule_calc db r sc sd = Inr rr \<and> eligible rr \<noteq> None"
proof (induction n arbitrary: res)
  case (Node nm ra ns rs)
  let ?n = "Node nm ra ns rs"
  from Node_calc_Inr[OF Node.prems] obtain xs where
    xs: "child_results db ?n sc sd = map Inr xs" "\<forall>r\<in>set xs. eligible r \<noteq> None"
    by blast
  show ?case
  proof
    fix r assume "r \<in> set (tree_rules ?n)"
    then consider c where "c \<in> set ns" "r \<in> set (tree_rules c)" | "r \<in> set rs" by auto
    then show "\<exists>rr. Rule_calc db r sc sd = Inr rr \<and> eligible rr \<noteq> None"
    proof cases
      case 1
      from 1(1) have "Node_calc db c sc sd \<in> set (child_results db ?n sc sd)"
        by (simp add: child_results_def)
      with xs(1) obtain x where "Node_calc db c sc sd = Inr x" by auto
      from Node.IH[OF 1(1) this] 1(2) show ?thesis by blast
    next
      case 2
      then have "Rule_calc db r sc sd \<in> set (child_results db ?n sc sd)"
        by (simp add: child_results_def)
      with xs show ?thesis by auto
    qed
  qed
qed

lemma Node_calc_Inl:
  "Node_calc db n sc sd = Inl e \<Longrightarrow>
   e = TypeError \<or> (\<exists>r\<in>set (tree_rules n). Rule_calc db r sc sd = Inl e)"
proof (induction n)
  case (Node nm ra ns rs)
  let ?n = "Node nm ra ns rs"
  from Node.prems have "aggregate ra (outcomes db ?n sc sd) (ra, [], [], []) = Inl e"
    by (auto simp: Node_calc_aggregate split: sum.splits)
  from aggregate_Inl[OF this] consider k where "(k, Inl e) \<in> set (outcomes db ?n sc sd)"
    | "e = TypeError" by blast
  then show ?case
  proof cases
    case 1
    then consider c where "c \<in> set ns" "Node_calc db c sc sd = Inl e"
      | r where "r \<in> set rs" "Rule_calc db r sc sd = Inl e"
      by (auto simp: outcomes_def)
    then show ?thesis
    proof cases
      case 1
      from Node.IH[OF 1] 1(1) show ?thesis by auto
    next
      case 2
      then show ?thesis by auto
    qed
  next
    case 2
    then show ?thesis by simp
  qed
qed

lemma Node_calc_first_error:
  assumes "child_results db n sc sd = map Inr oks @ Inl e # rest"
    and "\<forall>r\<in>set oks. eligible r \<noteq> None"
  shows "Node_calc db n sc sd = Inl e"
proof -
  let ?os = "outcomes db n sc sd"
  have len: "length ?os = length (child_results db n sc sd)"
    unfolding snd_outcomes[symmetric] by simp
  define ks where "ks = map fst ?os"
  have os: "?os = zip ks (child_results db n sc sd)"
    unfolding ks_def snd_outcomes[symmetric] by (simp add: zip_map_fst_snd)
  define k1 where "k1 = take (length oks) ks"
  define k2 where "k2 = drop (length oks) ks"
  have lks: "length ks = length oks + Suc (length rest)"
    using len assms(1) by (simp add: ks_def)
  have "ks = k1 @ k2" by (simp add: k1_def k2_def)
  moreover have l1: "length k1 = length oks" using lks by (simp add: k1_def)
  moreover from lks obtain k k3 where k2: "k2 = k # k3"
    by (cases k2) (auto simp: k2_def)
  ultimately have "?os = zip k1 (map Inr oks) @ (k, Inl e) # zip k3 rest"
    using os assms(1) by simp
  moreover have "zip k1 (map Inr oks) = map (\<lambda>(k, r). (k, Inr r)) (zip k1 oks)"
    by (simp add: zip_map2)
  ultimately have "?os = map (\<lambda>(k, r). (k, Inr r)) (zip k1 oks) @ (k, Inl e) # zip k3 rest"
    by simp
  moreover have "\<forall>r\<in>set (zip k1 oks). eligible (snd r) \<noteq> None"
    using assms(2) by (auto dest: set_zip_rightD)
  ultimately have "aggregate (requires_all n) ?os (requires_all n, [], [], []) = Inl e"
    using aggregate_first_error by simp
  then show ?thesis by (simp add: Node_calc_aggregate)
qed

lemma Node_calc_returns:
  assumes "child_results db n sc sd = map Inr rs" and "\<forall>r\<in>set rs. eligible r \<noteq> None"
  shows "\<exists>res. Node_calc db n sc sd = Inr res"
proof -
  have "\<forall>p\<in>set (outcomes db n sc sd). \<exists>r. snd p = Inr r \<and> eligible r \<noteq> None"
  proof
    fix p assume "p \<in> set (outcomes db n sc sd)"
    then have "snd p \<in> set (child_results db n sc sd)"
      unfolding snd_outcomes[symmetric] by simp
    with assms show "\<exists>r. snd p = Inr r \<and> eligible r \<noteq> None" by auto
  qed
  from aggregate_total[OF this] obtain b where
    "aggregate (requires_all n) (outcomes db n sc sd) (requires_all n, [], [], []) = Inr b"
    by blast
  then show ?thesis by (cases b) (simp add: Node_calc_aggregate)
qed

subsection \<open>Running the small rule set\<close>

lemma statements_differ:
  "statement rule_A sc \<noteq> statement rule_B sc"
  "statement rule_A sc \<noteq> statement rule_C sc"
  "statement rule_B sc \<noteq> statement rule_C sc"
  "statement rule_B sc \<noteq> statement rule_A sc"
  "statement rule_C sc \<noteq> statement rule_A sc"
  "statement rule_C sc \<noteq> statement rule_B sc"
  by (simp_all add: statement_def rule_A_def rule_B_def rule_C_def code_text_def SQL_head_def)

lemma rule_names:
  "rule_name rule_A = ''A''" "rule_name rule_B = ''B''" "rule_name rule_C = ''C''"
  by (simp_all add: rule_A_def rule_B_def rule_C_def)

lemma Rule_calc_A: "Rule_calc db_demo rule_A sc0 sd = Inr result_A"
  by (simp add: Rule_calc_def db_demo_def fetchone_def row_A_def truthy_date_def
      truthy_text_def result_A_def)

lemma Rule_calc_B: "Rule_calc db_demo rule_B sc0 sd = Inr result_B"
  by (simp add: Rule_calc_def db_demo_def statements_differ fetchone_def row_B_def
      truthy_date_def truthy_text_def result_B_def)

lemma Rule_calc_C: "Rule_calc db_demo rule_C sc0 sd = Inr result_C"
  by (simp add: Rule_calc_def db_demo_def statements_differ fetchone_def row_C_def
      truthy_date_def truthy_text_def result_C_def)

lemma Node_calc_AB: "Node_calc db_demo node_AB sc0 sd = Inr result_AB"
  by (simp add: node_AB_def Rule_calc_A Rule_calc_B rule_names result_AB_def result_A_def
      result_B_def combine_def append_limitation_def truthy_bool_def)

lemma node_AB_name: "node_name node_AB = ''income''"
  by (simp add: node_AB_def)

lemma Node_calc_general: "Node_calc db_demo node_general sc0 sd = Inr result_general"
  by (simp add: node_general_def Node_calc_AB Rule_calc_C rule_names result_general_def
      result_AB_def result_C_def node_AB_name combine_def append_limitation_def truthy_bool_def)

lemma Node_calc_categories:
  "Node_calc db_demo node_categories sc0 sd = Inr result_categories"
  by (simp add: node_categories_def Node_calc_AB Rule_calc_B rule_names result_categories_def
      result_AB_def result_B_def node_AB_name combine_def append_limitation_def truthy_bool_def)

lemma eligible_ABC:
  "eligible result_A = Some True" "eligible result_B = Some False"
  "eligible result_C = Some True"
  by (simp_all add: result_A_def result_B_def result_C_def)

subsection \<open>Eligibility of a node\<close>

text \<open>
  Claim C1. Whenever \<^verbatim>\<open>Node.calc\<close> returns, every direct child (child nodes, then own
  rules) has returned a result with a boolean flag, and the node's \<^verbatim>\<open>eligible\<close> is the
  conjunction of these flags when \<^verbatim>\<open>requires_all\<close> is set and their disjunction when it
  is not. It does return whenever every direct child returns a result with a boolean
  flag. A node without children returns \<^verbatim>\<open>requires_all\<close> itself: true for AND, false
  for OR.
\<close>

theorem Node_calc_eligible:
  "(Node_calc db n sc sd = Inr res \<longrightarrow>
      (\<exists>rs. child_results db n sc sd = map Inr rs
         \<and> (\<forall>r\<in>set rs. eligible r \<noteq> None)
         \<and> eligible res = Some (if requires_all n then (\<forall>r\<in>set rs. eligible r = Some True)
                                else (\<exists>r\<in>set rs. eligible r = Some True))))
   \<and> (child_results db n sc sd = map Inr rs' \<and> (\<forall>r\<in>set rs'. eligible r \<noteq> None) \<longrightarrow>
        (\<exists>res'. Node_calc db n sc sd = Inr res'))
   \<and> Node_calc db (Node nm True [] []) sc sd = Inr (NodeResult True [] [] [])
   \<and> Node_calc db (Node nm False [] []) sc sd = Inr (NodeResult False [] [] [])"
proof (intro conjI impI)
  assume "Node_calc db n sc sd = Inr res"
  from Node_calc_Inr[OF this] show "\<exists>rs. child_results db n sc sd = map Inr rs
         \<and> (\<forall>r\<in>set rs. eligible r \<noteq> None)
         \<and> eligible res = Some (if requires_all n then (\<forall>r\<in>set rs. eligible r = Some True)
                                else (\<exists>r\<in>set rs. eligible r = Some True))"
    by auto
next
  assume "child_results db n sc sd = map Inr rs' \<and> (\<forall>r\<in>set rs'. eligible r \<noteq> None)"
  then show "\<exists>res'. Node_calc db n sc sd = Inr res'"
    using Node_calc_returns by blast
qed simp_all

theorem Node_calc_eligible_witness:
  "Node_calc db_demo node_AB sc0 [] = Inr result_AB
   \<and> child_results db_demo node_AB sc0 [] = map Inr [result_A, result_B]
   \<and> eligible result_A \<noteq> None \<and> eligible result_B \<noteq> None
   \<and> (\<exists>rs. child_results db_demo node_AB sc0 [] = map Inr rs
         \<and> eligible result_AB = Some (\<exists>r\<in>set rs. eligible r = Some True))
   \<and> (\<exists>res'. Node_calc db_demo node_AB sc0 [] = Inr res')"
proof -
  have ra: "requires_all node_AB = False" by (simp add: node_AB_def)
  have nc: "Node_calc db_demo node_AB sc0 [] = Inr result_AB" by (rule Node_calc_AB)
  have cr: "child_results db_demo node_AB sc0 [] = map Inr [result_A, result_B]"
    by (simp add: child_results_def node_AB_def Rule_calc_A Rule_calc_B)
  have el: "\<forall>r\<in>set [result_A, result_B]. eligible r \<noteq> None"
    by (simp add: eligible_ABC del: not_None_eq)
  note T = Node_calc_eligible[where db = db_demo and n = node_AB and sc = sc0 and sd = "[]"
      and res = result_AB and rs' = "[result_A, result_B]"]
  from T nc have "\<exists>rs. child_results db_demo node_AB sc0 [] = map Inr rs
         \<and> (\<forall>r\<in>set rs. eligible r \<noteq> None)
         \<and> eligible result_AB = Some (if requires_all node_AB
              then (\<forall>r\<in>set rs. eligible r = Some True)
              else (\<exists>r\<in>set rs. eligible r = Some True))"
    by blast
  then have a: "\<exists>rs. child_results db_demo node_AB sc0 [] = map Inr rs
         \<and> eligible result_AB = Some (\<exists>r\<in>set rs. eligible r = Some True)"
    unfolding ra by auto
  from T cr el have b: "\<exists>res'. Node_calc db_demo node_AB sc0 [] = Inr res'"
    by blast
  from el have "eligible result_A \<noteq> None" "eligible result_B \<noteq> None" by simp_all
  with nc cr a b show ?thesis by blast
qed

subsection \<open>Explanations and limitations of a node\<close>

text \<open>
  Claim C3. Whenever \<^verbatim>\<open>Node.calc\<close> returns, its \<^verbatim>\<open>explanation\<close> list is the list of the
  explanations of all direct children in the order they were evaluated, eligible or not,
  and its \<^verbatim>\<open>limitation\<close> list is the list of the limitations of exactly those children
  whose \<^verbatim>\<open>eligible\<close> is true and whose limitation is present (in Python's sense: not
  \<^verbatim>\<open>None\<close>, and for a child node not the empty list), in the same order. The test does
  not read \<^verbatim>\<open>requires_all\<close>; in particular no limitation is listed when no child is
  eligible.
\<close>

theorem Node_calc_explanation_limitation:
  "Node_calc db n sc sd = Inr res \<Longrightarrow>
   \<exists>rs li. child_results db n sc sd = map Inr rs
     \<and> explanation res = ExplList (map explanation rs)
     \<and> limitation_of res = Some (LimList li)
     \<and> map Some li = map limitation_of
          (filter (\<lambda>r. eligible r = Some True \<and> truthy_lim (limitation_of r)) rs)
     \<and> ((\<forall>r\<in>set rs. eligible r \<noteq> Some True) \<longrightarrow> li = [])"
proof -
  assume "Node_calc db n sc sd = Inr res"
  from Node_calc_Inr[OF this] obtain rs li where
    rs: "child_results db n sc sd = map Inr rs"
    and res: "res = NodeResult
          (if requires_all n then (\<forall>r\<in>set rs. eligible r = Some True)
           else (\<exists>r\<in>set rs. eligible r = Some True))
          (map explanation rs) li
          (store (zip (map fst (outcomes db n sc sd)) rs) [])"
    and li: "map Some li = map limitation_of (filter carries rs)"
    by blast
  have c: "carries = (\<lambda>r. eligible r = Some True \<and> truthy_lim (limitation_of r))"
    by (rule ext) (simp add: carries_def truthy_bool_def)
  have "(\<forall>r\<in>set rs. eligible r \<noteq> Some True) \<longrightarrow> li = []"
  proof
    assume "\<forall>r\<in>set rs. eligible r \<noteq> Some True"
    then have "filter carries rs = []" by (auto simp: c filter_empty_conv)
    with li show "li = []" by simp
  qed
  with rs res li show ?thesis unfolding c by auto
qed

theorem Node_calc_explanation_limitation_witness:
  "Node_calc db_demo node_general sc0 [] = Inr result_general
   \<and> (\<exists>rs li. child_results db_demo node_general sc0 [] = map Inr rs
     \<and> explanation result_general = ExplList (map explanation rs)
     \<and> limitation_of result_general = Some (LimList li)
     \<and> map Some li = map limitation_of
          (filter (\<lambda>r. eligible r = Some True \<and> truthy_lim (limitation_of r)) rs))"
proof -
  have h: "Node_calc db_demo node_general sc0 [] = Inr result_general"
    by (rule Node_calc_general)
  from Node_calc_explanation_limitation[OF h] h show ?thesis by blast
qed

subsection \<open>The limitation of a rule result\<close>

text \<open>
  Claim C7. When the statement of a rule executes and returns a row, \<^verbatim>\<open>Rule.calc\<close>
  returns the row's \<^verbatim>\<open>eligible\<close> and \<^verbatim>\<open>explanation\<close>, and its \<^verbatim>\<open>limitation\<close> is
  \<^verbatim>\<open>None\<close> exactly when \<^verbatim>\<open>end_date\<close> is NULL and \<^verbatim>\<open>description\<close> is NULL or the empty
  string; otherwise it is the record of the four limitation columns of the row, unchanged.
\<close>

theorem Rule_calc_limitation:
  "db (statement r sc) sd = Cursor (f # rows) \<Longrightarrow>
   \<exists>l. Rule_calc db r sc sd = Inr (RuleResult (col_eligible f) (col_explanation f) l)
     \<and> (l = None \<longleftrightarrow>
          col_end_date f = None \<and> (col_description f = None \<or> col_description f = Some []))
     \<and> (l \<noteq> None \<longrightarrow>
          l = Some \<lparr> end_date = col_end_date f, normal = col_normal f,
                     description = col_description f,
                     lim_explanation = col_limitation_explanation f \<rparr>)"
  by (cases "col_description f")
    (auto simp: Rule_calc_def fetchone_def truthy_date_def truthy_text_def)

theorem Rule_calc_limitation_witness:
  "db_demo (statement rule_C sc0) [] = Cursor (row_C # [])
   \<and> (\<exists>l. Rule_calc db_demo rule_C sc0 [] =
          Inr (RuleResult (col_eligible row_C) (col_explanation row_C) l)
        \<and> l \<noteq> None
        \<and> l = Some \<lparr> end_date = col_end_date row_C, normal = col_normal row_C,
                     description = col_description row_C,
                     lim_explanation = col_limitation_explanation row_C \<rparr>)"
proof -
  have h: "db_demo (statement rule_C sc0) [] = Cursor (row_C # [])"
    by (simp add: db_demo_def statements_differ)
  have "col_end_date row_C \<noteq> None" by (simp add: row_C_def)
  with Rule_calc_limitation[of db_demo rule_C sc0 "[]" row_C "[]", OF h] h
  show ?thesis by auto
qed

subsection \<open>The type of a schema property\<close>

text \<open>What \<^verbatim>\<open>_col_data_type\<close> does in each of its branches.\<close>

lemma col_data_type_date_time:
  "map_of col_data ''format'' = Some (JStr ''date-time'') \<Longrightarrow>
   col_data_type col_data = Inr (Some ''date'')"
  by (simp add: col_data_type_def)

lemma col_data_type_ref:
  "map_of col_data ''format'' \<noteq> Some (JStr ''date-time'') \<Longrightarrow>
   map_of col_data ''$ref'' = Some (JStr ''#/definitions/ynexception'') \<Longrightarrow>
   col_data_type col_data = Inr (Some ''text'')"
  by (simp add: col_data_type_def)

lemma col_data_type_primitive:
  "map_of col_data ''format'' \<noteq> Some (JStr ''date-time'') \<Longrightarrow>
   map_of col_data ''$ref'' \<noteq> Some (JStr ''#/definitions/ynexception'') \<Longrightarrow>
   map_of col_data ''type'' = Some (JStr s) \<Longrightarrow>
   col_data_type col_data = Inr (map_of JSONSCHEMA_TO_PG_TYPES s)"
  by (simp add: col_data_type_def)

lemma col_data_type_union_single:
  "map_of col_data ''format'' \<noteq> Some (JStr ''date-time'') \<Longrightarrow>
   map_of col_data ''$ref'' \<noteq> Some (JStr ''#/definitions/ynexception'') \<Longrightarrow>
   map_of col_data ''type'' = Some (JList ts) \<Longrightarrow>
   filter (\<lambda>dt. dt \<noteq> JStr ''null'') ts = [JStr s] \<Longrightarrow>
   col_data_type col_data = Inr (map_of JSONSCHEMA_TO_PG_TYPES s)"
  by (simp add: col_data_type_def narrow_union_def)

lemma col_data_type_union_many:
  "map_of col_data ''format'' \<noteq> Some (JStr ''date-time'') \<Longrightarrow>
   map_of col_data ''$ref'' \<noteq> Some (JStr ''#/definitions/ynexception'') \<Longrightarrow>
   map_of col_data ''type'' = Some (JList ts) \<Longrightarrow>
   length (filter (\<lambda>dt. dt \<noteq> JStr ''null'') ts) > 1 \<Longrightarrow>
   col_data_type col_data = Inr None"
  by (simp add: col_data_type_def narrow_union_def JSONSCHEMA_TO_PG_TYPES_def)

lemma col_data_type_missing:
  "map_of col_data ''format'' \<noteq> Some (JStr ''date-time'') \<Longrightarrow>
   map_of col_data ''$ref'' \<noteq> Some (JStr ''#/definitions/ynexception'') \<Longrightarrow>
   map_of col_data ''type'' = None \<Longrightarrow>
   col_data_type col_data = Inr None"
  by (simp add: col_data_type_def JSONSCHEMA_TO_PG_TYPES_def)

lemma col_data_type_only_null:
  "col_data_type [(''type'', JList [JStr ''null''])] = Inl IndexError"
  by (simp add: col_data_type_def narrow_union_def)

lemma col_data_type_date_time_union:
  "col_data_type [(''type'', JList [JStr ''string'', JStr ''null'']),
                  (''format'', JStr ''date-time'')] = Inr (Some ''date'')"
  by (simp add: col_data_type_def)

text \<open>
  Claim C5. The claim has a union of more than one type, once \<^verbatim>\<open>"null"\<close> is dropped,
  resolve to TEXT. \<^verbatim>\<open>_col_data_type\<close> sets \<^verbatim>\<open>data_type = 'text'\<close> in that branch and then
  looks \<^verbatim>\<open>'text'\<close> up in \<^verbatim>\<open>_JSONSCHEMA_TO_PG_TYPES\<close>, whose keys are the JSON schema names
  \<^verbatim>\<open>integer\<close>, \<^verbatim>\<open>number\<close>, \<^verbatim>\<open>string\<close>, \<^verbatim>\<open>date\<close>, \<^verbatim>\<open>boolean\<close>: the lookup gives \<^verbatim>\<open>None\<close>, and
  \<^verbatim>\<open>data_types\<close> writes no entry for the property. The property
  \<^verbatim>\<open>{"type": ["string", "integer"]}\<close> shows it.
\<close>

theorem col_data_type_union_unmapped:
  "col_data_type [(''type'', JList [JStr ''string'', JStr ''integer''])] = Inr None
   \<and> data_types
        [ [(''properties'',
           JObj [(''income'', JObj [(''type'', JList [JStr ''string'', JStr ''integer''])]),
                 (''age'', JObj [(''type'', JStr ''integer'')])])] ]
      = Inr [(''age'', ''integer'')]"
  by (simp add: col_data_type_def narrow_union_def JSONSCHEMA_TO_PG_TYPES_def data_types_def
      properties_of_def)

subsection \<open>Fallback sources\<close>

lemma null_source_items_filter:
  "null_source_items items raw =
     map (\<lambda>(key, val). '' '' @ key @ '' as ( select * from '' @ val @ '' ) '')
       (filter (\<lambda>(key, val). key \<notin> set (map fst raw)) items)"
  by (induction items raw rule: null_source_items.induct)
    (simp_all add: has_key_def fallback_fragment_def)

lemma filter_key_distinct:
  "distinct (map fst items) \<Longrightarrow> (key, val) \<in> set items \<Longrightarrow>
   filter (\<lambda>(k, v). k = key) items = [(key, val)]"
proof (induction items)
  case Nil
  then show ?case by simp
next
  case (Cons p items)
  obtain k v where p: "p = (k, v)" by (cases p)
  show ?case
  proof (cases "k = key")
    case True
    with Cons.prems p have "\<forall>q\<in>set items. fst q \<noteq> key" by auto
    then have "filter (\<lambda>(k, v). k = key) items = []"
      by (auto simp: filter_empty_conv)
    moreover from Cons.prems p True have "v = val" by (auto simp: image_iff)
    ultimately show ?thesis using p True by simp
  next
    case False
    with Cons p show ?thesis by auto
  qed
qed

lemma count_key_distinct:
  assumes "distinct (map fst items)" and "(key, val) \<in> set items"
  shows "length (filter (\<lambda>(k, v). k = key) (filter P items)) = (if P (key, val) then 1 else 0)"
proof -
  have "filter (\<lambda>(k, v). k = key) (filter P items) = filter P (filter (\<lambda>(k, v). k = key) items)"
    by (simp add: conj_commute)
  also have "\<dots> = filter P [(key, val)]" by (simp only: filter_key_distinct[OF assms])
  finally show ?thesis by simp
qed

lemma values_from_json_Inr:
  "values_from_json w rs raw = Inr (clause, data) \<Longrightarrow>
   \<exists>p ps items. source_fragments w raw = Inr (p # ps) \<and> null_sources rs = Some items
     \<and> clause = ''WITH '' @ join '',\<newline>'' (map fst (p # ps) @ null_source_items items raw)
     \<and> data = map snd (p # ps)"
  by (auto simp: values_from_json_def null_source_sql_def
      split: sum.splits list.splits option.splits)

lemma values_from_json_record_7:
  "values_from_json demo_world demo_ruleset record_7 = Inr (sc0, [''[{}]''])"
  by (simp add: values_from_json_def demo_world_def demo_fragments_def has_key_def record_7_def
      null_source_sql_def demo_ruleset_def sc0_def)

text \<open>
  Claim C6. \<^verbatim>\<open>null_source_sql\<close> yields, in the order of the \<^verbatim>\<open>null_sources\<close> mapping, the
  fragment \<^verbatim>\<open>" name as ( select * from definition ) "\<close> for each entry whose name is not a
  key of the record, and nothing for the others: with the names of a mapping being
  distinct, one fragment for each absent name and none for a present one. Whenever
  \<^verbatim>\<open>values_from_json\<close> returns a clause, the clause is \<^verbatim>\<open>WITH\<close> followed by the record's own
  fragments and then these fallback fragments, joined by a comma and a newline, and the
  bound values are those of the record's own fragments only.
\<close>

theorem null_source_fallbacks:
  "null_source_items items raw =
     map (\<lambda>(key, val). '' '' @ key @ '' as ( select * from '' @ val @ '' ) '')
       (filter (\<lambda>(key, val). key \<notin> set (map fst raw)) items)
   \<and> (distinct (map fst items) \<and> (name, dfn) \<in> set items \<longrightarrow>
        length (filter (\<lambda>(k, v). k = name)
                 (filter (\<lambda>(key, val). key \<notin> set (map fst raw)) items))
          = (if name \<in> set (map fst raw) then 0 else 1))
   \<and> (values_from_json w rs raw = Inr (clause, data) \<longrightarrow>
        (\<exists>pairs fallbacks. source_fragments w raw = Inr pairs
           \<and> null_source_sql rs raw = Inr fallbacks
           \<and> clause = ''WITH '' @ join '',\<newline>'' (map fst pairs @ fallbacks)
           \<and> data = map snd pairs))"
proof (intro conjI impI)
  show "null_source_items items raw =
     map (\<lambda>(key, val). '' '' @ key @ '' as ( select * from '' @ val @ '' ) '')
       (filter (\<lambda>(key, val). key \<notin> set (map fst raw)) items)"
    by (rule null_source_items_filter)
next
  assume "distinct (map fst items) \<and> (name, dfn) \<in> set items"
  then show "length (filter (\<lambda>(k, v). k = name)
                 (filter (\<lambda>(key, val). key \<notin> set (map fst raw)) items))
          = (if name \<in> set (map fst raw) then 0 else 1)"
    using count_key_distinct[of items name dfn "\<lambda>(key, val). key \<notin> set (map fst raw)"]
    by simp
next
  assume "values_from_json w rs raw = Inr (clause, data)"
  from values_from_json_Inr[OF this] show "\<exists>pairs fallbacks. source_fragments w raw = Inr pairs
           \<and> null_source_sql rs raw = Inr fallbacks
           \<and> clause = ''WITH '' @ join '',\<newline>'' (map fst pairs @ fallbacks)
           \<and> data = map snd pairs"
    by (auto simp: null_source_sql_def)
qed

theorem null_source_fallbacks_witness:
  "distinct (map fst [(''household'', ''household_default''), (''income'', ''income_default'')])
   \<and> (''household'', ''household_default'')
        \<in> set [(''household'', ''household_default''), (''income'', ''income_default'')]
   \<and> values_from_json demo_world household_ruleset record_7 =
        Inr (''WITH income as (select * from json_to_recordset(%s)),\<newline>'' @
             '' household as ( select * from household_default ) '',
             [''[{}]''])
   \<and> null_source_items [(''household'', ''household_default''), (''income'', ''income_default'')]
        record_7 = ['' household as ( select * from household_default ) '']
   \<and> length (filter (\<lambda>(k, v). k = ''household'')
               (filter (\<lambda>(key, val). key \<notin> set (map fst record_7))
                  [(''household'', ''household_default''), (''income'', ''income_default'')])) = 1"
proof -
  let ?items = "[(''household'', ''household_default''), (''income'', ''income_default'')]"
  let ?clause = "''WITH income as (select * from json_to_recordset(%s)),\<newline>'' @
             '' household as ( select * from household_default ) ''"
  have d: "distinct (map fst ?items)" by simp
  have m: "(''household'', ''household_default'') \<in> set ?items" by simp
  have v: "values_from_json demo_world household_ruleset record_7 =
        Inr (?clause, [''[{}]''])"
    by (simp add: values_from_json_def demo_world_def demo_fragments_def has_key_def
        record_7_def null_source_sql_def household_ruleset_def fallback_fragment_def)
  note T = null_source_fallbacks[where items = ?items and raw = record_7
      and name = "''household''" and dfn = "''household_default''"
      and w = demo_world and rs = household_ruleset and clause = ?clause
      and data = "[''[{}]'']"]
  from T have "null_source_items ?items record_7 =
     map (\<lambda>(key, val). '' '' @ key @ '' as ( select * from '' @ val @ '' ) '')
       (filter (\<lambda>(key, val). key \<notin> set (map fst record_7)) ?items)"
    by blast
  then have n: "null_source_items ?items record_7 =
      ['' household as ( select * from household_default ) '']"
    by (simp add: record_7_def)
  from T d m have "length (filter (\<lambda>(k, v). k = ''household'')
               (filter (\<lambda>(key, val). key \<notin> set (map fst record_7)) ?items))
       = (if ''household'' \<in> set (map fst record_7) then 0 else 1)"
    by blast
  then have c: "length (filter (\<lambda>(k, v). k = ''household'')
               (filter (\<lambda>(key, val). key \<notin> set (map fst record_7)) ?items)) = 1"
    by (simp add: record_7_def)
  from d m v n c show ?thesis by blast
qed

subsection \<open>Records without a source fragment\<close>

text \<open>
  Claim C8. When the helper yields no fragment for a record, \<^verbatim>\<open>values_from_json\<close> raises
  \<^verbatim>\<open>ValueError\<close> (the empty \<^verbatim>\<open>zip\<close> cannot be unpacked), whatever \<^verbatim>\<open>null_sources\<close> holds; when
  the helper raises, its exception is the outcome. A clause that is returned holds at
  least one fragment of the record and one bound value: it starts with \<^verbatim>\<open>WITH\<close> and the
  first fragment.
\<close>

theorem values_from_json_no_fragment:
  "(source_fragments w raw = Inr [] \<longrightarrow> values_from_json w rs raw = Inl ValueError)
   \<and> (source_fragments w raw = Inl e \<longrightarrow> values_from_json w rs raw = Inl e)
   \<and> (values_from_json w rs raw = Inr (clause, data) \<longrightarrow>
        (\<exists>p ps rest. source_fragments w raw = Inr (p # ps)
           \<and> clause = ''WITH '' @ fst p @ rest \<and> data = snd p # map snd ps))"
proof (intro conjI impI)
  assume "values_from_json w rs raw = Inr (clause, data)"
  from values_from_json_Inr[OF this] obtain p ps items where
    *: "source_fragments w raw = Inr (p # ps)"
       "clause = ''WITH '' @ join '',\<newline>'' (map fst (p # ps) @ null_source_items items raw)"
       "data = map snd (p # ps)"
    by blast
  have "join '',\<newline>'' (map fst (p # ps) @ null_source_items items raw) =
      fst p @ (if map fst ps @ null_source_items items raw = [] then []
               else '',\<newline>'' @ join '',\<newline>'' (map fst ps @ null_source_items items raw))"
    by (cases "map fst ps @ null_source_items items raw") simp_all
  with * show "\<exists>p ps rest. source_fragments w raw = Inr (p # ps)
           \<and> clause = ''WITH '' @ fst p @ rest \<and> data = snd p # map snd ps"
    by auto
qed (simp_all add: values_from_json_def)

theorem values_from_json_no_fragment_witness:
  "source_fragments demo_world [] = Inr []
   \<and> values_from_json demo_world household_ruleset [] = Inl ValueError
   \<and> values_from_json demo_world demo_ruleset record_7 = Inr (sc0, [''[{}]''])
   \<and> (\<exists>p ps rest. source_fragments demo_world record_7 = Inr (p # ps)
           \<and> sc0 = ''WITH '' @ fst p @ rest)"
proof -
  have a: "source_fragments demo_world [] = Inr []"
    by (simp add: demo_world_def demo_fragments_def has_key_def)
  from values_from_json_no_fragment[where w = demo_world and raw = "[]"
      and rs = household_ruleset] a
  have b: "values_from_json demo_world household_ruleset [] = Inl ValueError" by blast
  from values_from_json_no_fragment[where w = demo_world and raw = record_7
      and rs = demo_ruleset and clause = sc0 and data = "[''[{}]'']"]
    values_from_json_record_7
  have c: "\<exists>p ps rest. source_fragments demo_world record_7 = Inr (p # ps)
           \<and> sc0 = ''WITH '' @ fst p @ rest"
    by blast
  from a b c values_from_json_record_7 show ?thesis by blast
qed

subsection \<open>The rendering of Rule.sql\<close>

lemma py_format_Cons: "c \<noteq> CHR ''%'' \<Longrightarrow> py_format (c # t) as = map_sum id ((#) c) (py_format t as)"
  by (cases t) simp_all

lemma quote_placeholders_Cons:
  "c \<noteq> CHR ''%'' \<Longrightarrow> quote_placeholders (c # t) = c # quote_placeholders t"
  by (cases t) simp_all

lemma plain_Cons: "c \<noteq> CHR ''%'' \<Longrightarrow> plain_placeholders (c # t) = plain_placeholders t"
  by (cases t) simp_all

lemma no_percent_plain: "CHR ''%'' \<notin> set t \<Longrightarrow> plain_placeholders t"
  by (induction t) (simp_all add: plain_Cons[OF not_sym])

lemma quote_placeholders_no_percent:
  "CHR ''%'' \<notin> set t \<Longrightarrow> quote_placeholders (t @ u) = t @ quote_placeholders u"
  by (induction t) (simp_all add: quote_placeholders_Cons[OF not_sym])

lemma py_format_no_percent:
  "CHR ''%'' \<notin> set t \<Longrightarrow> py_format (t @ u) as = map_sum id ((@) t) (py_format u as)"
proof (induction t)
  case Nil
  show ?case by (cases "py_format u as") simp_all
next
  case (Cons c t)
  then show ?case by (cases "py_format u as") (simp_all add: py_format_Cons[OF not_sym])
qed

lemma no_percent_fixed:
  "CHR ''%'' \<notin> set SQL_head" "CHR ''%'' \<notin> set SQL_tail"
  by (simp_all add: SQL_head_def SQL_tail_def)

lemma render_single:
  assumes "CHR ''%'' \<notin> set a" and "CHR ''%'' \<notin> set b"
  shows "py_format (quote_placeholders (a @ ''%s'' @ b)) [v] = Inr (a @ [CHR 0x27] @ v @ [CHR 0x27] @ b)"
    and "py_format (a @ ''%s'' @ b) [x] = Inr (a @ x @ b)"
proof -
  have b0: "py_format b [] = Inr b"
    using py_format_no_percent[OF assms(2), of "[]" "[]"] by simp
  have qb: "quote_placeholders b = b"
    using quote_placeholders_no_percent[OF assms(2), of "[]"] by simp
  have "quote_placeholders (a @ ''%s'' @ b) = a @ [CHR 0x27] @ ''%s'' @ [CHR 0x27] @ b"
    by (simp add: quote_placeholders_no_percent[OF assms(1)] qb)
  moreover have "py_format ([CHR 0x27] @ ''%s'' @ [CHR 0x27] @ b) [v] = Inr ([CHR 0x27] @ v @ [CHR 0x27] @ b)"
    by (simp add: py_format_Cons b0)
  ultimately show "py_format (quote_placeholders (a @ ''%s'' @ b)) [v]
      = Inr (a @ [CHR 0x27] @ v @ [CHR 0x27] @ b)"
    by (simp add: py_format_no_percent[OF assms(1)])
  have "py_format (''%s'' @ b) [x] = Inr (x @ b)" by (simp add: b0)
  then show "py_format (a @ ''%s'' @ b) [x] = Inr (a @ x @ b)"
    by (simp add: py_format_no_percent[OF assms(1)])
qed

lemma statement_split:
  "statement r (pre @ mid @ post) = (SQL_head @ pre) @ mid @ (post @ '' '' @ code_text r @ SQL_tail)"
  by (simp add: statement_def)

lemma Rule_sql_single:
  assumes "CHR ''%'' \<notin> set pre" and "CHR ''%'' \<notin> set post" and "CHR ''%'' \<notin> set (code_text r)"
  shows "Rule_sql r (pre @ ''%s'' @ post) [v]
           = Inr (statement r (pre @ ([CHR 0x27] @ v @ [CHR 0x27]) @ post))"
    and "Rule_sql_quoted r (pre @ ''%s'' @ post) [v]
           = Inr (statement r (pre @ sql_quote_literal v @ post))"
proof -
  have a: "CHR ''%'' \<notin> set (SQL_head @ pre)" using assms(1) no_percent_fixed by simp
  have b: "CHR ''%'' \<notin> set (post @ '' '' @ code_text r @ SQL_tail)"
    using assms(2,3) no_percent_fixed by simp
  show "Rule_sql r (pre @ ''%s'' @ post) [v]
           = Inr (statement r (pre @ ([CHR 0x27] @ v @ [CHR 0x27]) @ post))"
    unfolding Rule_sql_def statement_split render_single(1)[OF a b] by simp
  show "Rule_sql_quoted r (pre @ ''%s'' @ post) [v]
           = Inr (statement r (pre @ sql_quote_literal v @ post))"
    unfolding Rule_sql_quoted_def statement_split list.map render_single(2)[OF a b] by simp
qed

lemma statement_inject: "statement r x = statement r y \<longleftrightarrow> x = y"
  by (simp add: statement_def)

lemma sc0_split: "sc0 = ''WITH income as (select * from json_to_recordset('' @ ''%s'' @ ''))''"
  by (simp add: sc0_def)

lemma plain_append:
  "plain_placeholders a \<Longrightarrow> plain_placeholders b \<Longrightarrow> plain_placeholders (a @ b)"
proof (induction a rule: plain_placeholders.induct)
  case 1
  then show ?case by simp
next
  case (2 c)
  then show ?case by (simp add: plain_Cons)
next
  case (3 c d cs)
  then show ?case by (auto split: if_splits)
qed

lemma map_sum_id_comp: "map_sum id f (map_sum id g x) = map_sum id (f \<circ> g) x"
  by (cases x) simp_all

lemma py_format_quote_placeholders:
  "plain_placeholders t \<Longrightarrow>
   py_format (quote_placeholders t) as = py_format t (map wrap_quotes as)"
proof (induction t arbitrary: as rule: quote_placeholders.induct)
  case 1
  show ?case by (cases as) simp_all
next
  case (2 c)
  then show ?case by (cases as) simp_all
next
  case (3 c d cs)
  show ?case
  proof (cases "c = CHR ''%''")
    case True
    with "3.prems" have d: "d = CHR ''s''" and p: "plain_placeholders cs" by simp_all
    show ?thesis
    proof (cases as)
      case Nil
      then show ?thesis using True d by (simp add: py_format_Cons)
    next
      case (Cons a as')
      from "3.IH"(1)[OF _ p, of as'] True d
      have IH: "py_format (quote_placeholders cs) as' = py_format cs (map wrap_quotes as')"
        by simp
      have w: "wrap_quotes a = CHR 0x27 # a @ [CHR 0x27]" by (simp add: wrap_quotes_def)
      show ?thesis using True d Cons
        by (cases "py_format cs (map wrap_quotes as')")
          (simp_all add: py_format_Cons IH w)
    qed
  next
    case False
    with "3.prems" have p: "plain_placeholders (d # cs)" by simp
    from "3.IH"(2)[OF _ p, of as] False
    have IH: "py_format (quote_placeholders (d # cs)) as = py_format (d # cs) (map wrap_quotes as)"
      by simp
    have "quote_placeholders (c # d # cs) = c # quote_placeholders (d # cs)"
      using False by simp
    then have "py_format (quote_placeholders (c # d # cs)) as
        = map_sum id ((#) c) (py_format (quote_placeholders (d # cs)) as)"
      by (simp only: py_format_Cons[OF False])
    also have "\<dots> = map_sum id ((#) c) (py_format (d # cs) (map wrap_quotes as))"
      by (simp only: IH)
    also have "\<dots> = py_format (c # d # cs) (map wrap_quotes as)"
      by (simp only: py_format_Cons[OF False])
    finally show ?thesis .
  qed
qed

lemma plain_fixed: "plain_placeholders SQL_head" "plain_placeholders SQL_tail"
  "plain_placeholders '' ''"
  by (simp_all add: no_percent_plain no_percent_fixed)

lemma plain_statement:
  "plain_placeholders sc \<Longrightarrow> plain_placeholders (code_text r) \<Longrightarrow>
   plain_placeholders (statement r sc)"
  unfolding statement_def by (intro plain_append plain_fixed)

lemma sql_quote_literal_plain:
  "CHR 0x27 \<notin> set v \<Longrightarrow> sql_quote_literal v = wrap_quotes v"
proof -
  assume "CHR 0x27 \<notin> set v"
  then have "concat (map (\<lambda>c. if c = CHR 0x27 then [CHR 0x27, CHR 0x27] else [c]) v) = v"
    by (induction v) auto
  then show ?thesis by (simp add: sql_quote_literal_def wrap_quotes_def)
qed

text \<open>
  Claim C9, as stated: \<^verbatim>\<open>Rule.sql\<close> inlines each bound value as a safely quoted literal.
  It does not: for the value \<^verbatim>\<open>O'Brien\<close> the rendering holds \<^verbatim>\<open>'O'Brien'\<close>, where the
  quoted literal is \<^verbatim>\<open>'O''Brien'\<close>.
\<close>

theorem Rule_sql_quoting_counterexample:
  "Rule_sql rule_A sc0 [''O'Brien''] =
     Inr (statement rule_A
       (''WITH income as (select * from json_to_recordset('' @
          ([CHR 0x27] @ ''O'Brien'' @ [CHR 0x27]) @ ''))''))
   \<and> Rule_sql_quoted rule_A sc0 [''O'Brien''] =
     Inr (statement rule_A
       (''WITH income as (select * from json_to_recordset('' @
          ([CHR 0x27] @ ''O'' @ [CHR 0x27, CHR 0x27] @ ''Brien'' @ [CHR 0x27]) @ ''))''))
   \<and> Rule_sql rule_A sc0 [''O'Brien''] \<noteq> Rule_sql_quoted rule_A sc0 [''O'Brien'']"
proof -
  have p: "CHR ''%'' \<notin> set ''WITH income as (select * from json_to_recordset(''"
    "CHR ''%'' \<notin> set ''))''" "CHR ''%'' \<notin> set (code_text rule_A)"
    by (simp_all add: code_text_def rule_A_def)
  have q: "sql_quote_literal ''O'Brien'' = [CHR 0x27] @ ''O'' @ [CHR 0x27, CHR 0x27] @ ''Brien'' @ [CHR 0x27]"
    by (simp add: sql_quote_literal_def)
  show ?thesis
    unfolding sc0_split Rule_sql_single[OF p] q sum.inject statement_inject
    by simp
qed

text \<open>
  Claim C9, amended. \<^verbatim>\<open>Rule.sql\<close> puts each bound value between single quotes with its
  text unchanged: when the source clause and the rule body hold no percent sign other
  than in \<^verbatim>\<open>%s\<close>, the rendering is the statement with each placeholder filled by the
  value between quotes. It is the safely quoted rendering when no value holds a quote
  character.
\<close>

theorem Rule_sql_inlines_verbatim:
  "plain_placeholders sc \<and> plain_placeholders (code_text r) \<longrightarrow>
     Rule_sql r sc sd = py_format (statement r sc) (map (\<lambda>v. CHR 0x27 # v @ [CHR 0x27]) sd)
     \<and> ((\<forall>v\<in>set sd. CHR 0x27 \<notin> set v) \<longrightarrow> Rule_sql r sc sd = Rule_sql_quoted r sc sd)"
proof (intro impI conjI)
  assume p: "plain_placeholders sc \<and> plain_placeholders (code_text r)"
  then have ps: "plain_placeholders (statement r sc)" by (simp add: plain_statement)
  have w: "wrap_quotes = (\<lambda>v. CHR 0x27 # v @ [CHR 0x27])"
    by (rule ext) (simp add: wrap_quotes_def)
  from py_format_quote_placeholders[OF ps, of sd]
  show r: "Rule_sql r sc sd = py_format (statement r sc) (map (\<lambda>v. CHR 0x27 # v @ [CHR 0x27]) sd)"
    by (simp add: Rule_sql_def w)
  assume "\<forall>v\<in>set sd. CHR 0x27 \<notin> set v"
  then have "map sql_quote_literal sd = map (\<lambda>v. CHR 0x27 # v @ [CHR 0x27]) sd"
    by (simp add: sql_quote_literal_plain wrap_quotes_def)
  then show "Rule_sql r sc sd = Rule_sql_quoted r sc sd"
    by (simp only: r Rule_sql_quoted_def)
qed

theorem Rule_sql_inlines_verbatim_witness:
  "plain_placeholders sc0 \<and> plain_placeholders (code_text rule_A)
   \<and> CHR 0x27 \<notin> set ''[{}]''
   \<and> Rule_sql rule_A sc0 [''[{}]''] = Rule_sql_quoted rule_A sc0 [''[{}]'']"
proof -
  have a: "plain_placeholders sc0" by (simp add: sc0_def)
  have b: "plain_placeholders (code_text rule_A)" by (simp add: code_text_def rule_A_def)
  have c: "\<forall>v\<in>set [''[{}]'']. CHR 0x27 \<notin> set v" by simp
  from Rule_sql_inlines_verbatim[of sc0 rule_A "[''[{}]'']"] a b c
  have "Rule_sql rule_A sc0 [''[{}]''] = Rule_sql_quoted rule_A sc0 [''[{}]'']" by blast
  with a b show ?thesis by simp
qed

subsection \<open>The payload after flattening\<close>

lemma filter_absent_key:
  "map_of d k = None \<Longrightarrow> filter (\<lambda>(k', v). k' \<noteq> k) d = d"
  by (induction d) (auto split: if_splits)

lemma delete_filter: "AList.delete k d = filter (\<lambda>(k', v). k' \<noteq> k) d"
  by (induction d) auto

lemma fst_flattened:
  "fst (flattened payload) = filter (\<lambda>(k, v). k \<noteq> ''applicants'') payload"
  by (auto simp: flattened_def pop_def filter_absent_key delete_filter
      split: option.splits sum.splits)

lemma map_of_filter_key: "map_of (filter (\<lambda>(k', v). k' \<noteq> k) d) k = None"
  by (induction d) auto

lemma flattened_again:
  "snd (flattened (filter (\<lambda>(k, v). k \<noteq> ''applicants'') payload))
     = [Inl (KeyError ''applicants'')]"
  by (simp add: flattened_def pop_def map_of_filter_key)

lemma flattened_twice_fst:
  "fst (flattened (filter (\<lambda>(k, v). k \<noteq> ''applicants'') payload))
     = filter (\<lambda>(k, v). k \<noteq> ''applicants'') payload"
  by (simp add: flattened_def pop_def map_of_filter_key)

text \<open>
  Claim C10. \<^verbatim>\<open>Ruleset.flattened\<close> leaves the payload it was given without the key
  \<^verbatim>\<open>'applicants'\<close> and with every other entry as it was, in the same order.
  \<^verbatim>\<open>Ruleset.calc\<close> and \<^verbatim>\<open>Ruleset.sql\<close> (the generator run to its end) leave the
  application in that state, whatever they return or raise, and a second call of either
  on the same object raises \<^verbatim>\<open>KeyError('applicants')\<close>.
\<close>

theorem flattened_pops_applicants:
  "fst (flattened payload) = filter (\<lambda>(k, v). k \<noteq> ''applicants'') payload
   \<and> \<not> has_key (fst (flattened payload)) ''applicants''
   \<and> fst (Ruleset_calc w rs payload) = fst (flattened payload)
   \<and> fst (Ruleset_sql w rs payload) = fst (flattened payload)
   \<and> snd (flattened (fst (flattened payload))) = [Inl (KeyError ''applicants'')]
   \<and> snd (Ruleset_calc w rs (fst (Ruleset_calc w rs payload))) = Inl (KeyError ''applicants'')
   \<and> snd (Ruleset_sql w rs (fst (Ruleset_sql w rs payload))) = Inl (KeyError ''applicants'')
   \<and> snd (Ruleset_calc w rs (fst (Ruleset_sql w rs payload))) = Inl (KeyError ''applicants'')
   \<and> snd (Ruleset_sql w rs (fst (Ruleset_calc w rs payload))) = Inl (KeyError ''applicants'')"
proof -
  let ?p = "filter (\<lambda>(k, v). k \<noteq> ''applicants'') payload"
  have c: "fst (Ruleset_calc w rs q) = fst (flattened q)" for q
    by (simp add: Ruleset_calc_def split: prod.splits)
  have s: "fst (Ruleset_sql w rs q) = fst (flattened q)" for q
    by (simp add: Ruleset_sql_def split: prod.splits)
  have f: "flattened ?p = (?p, [Inl (KeyError ''applicants'')])"
    using flattened_again[of payload] flattened_twice_fst[of payload]
    by (cases "flattened ?p") simp
  have c2: "snd (Ruleset_calc w rs ?p) = Inl (KeyError ''applicants'')"
    by (simp add: Ruleset_calc_def f)
  have s2: "snd (Ruleset_sql w rs ?p) = Inl (KeyError ''applicants'')"
    by (simp add: Ruleset_sql_def f)
  have h: "\<not> has_key ?p ''applicants''"
    by (auto simp: has_key_def)
  show ?thesis
    by (simp only: c s fst_flattened flattened_again c2 s2 h simp_thms)
qed

theorem flattened_pops_applicants_witness:
  "fst (flattened application_7) = [(''state'', JStr ''AZ'')]
   \<and> fst (Ruleset_calc demo_world demo_ruleset application_7) = [(''state'', JStr ''AZ'')]
   \<and> snd (Ruleset_calc demo_world demo_ruleset
          (fst (Ruleset_calc demo_world demo_ruleset application_7)))
        = Inl (KeyError ''applicants'')"
proof -
  note T = flattened_pops_applicants[where payload = application_7 and w = demo_world
      and rs = demo_ruleset]
  from T have "fst (flattened application_7)
      = filter (\<lambda>(k, v). k \<noteq> ''applicants'') application_7"
    by blast
  then have a: "fst (flattened application_7) = [(''state'', JStr ''AZ'')]"
    by (simp add: application_7_def)
  from T a have b: "fst (Ruleset_calc demo_world demo_ruleset application_7)
      = [(''state'', JStr ''AZ'')]"
    by simp
  from T have c: "snd (Ruleset_calc demo_world demo_ruleset
          (fst (Ruleset_calc demo_world demo_ruleset application_7)))
        = Inl (KeyError ''applicants'')"
    by blast
  from a b c show ?thesis by blast
qed

subsection \<open>The loops of Ruleset.calc\<close>

lemma map_of_store:
  "map_of (store kvs d) k = (case map_of (rev kvs) k of Some v \<Rightarrow> Some v | None \<Rightarrow> map_of d k)"
proof (induction kvs arbitrary: d)
  case Nil
  show ?case by (simp add: store_def)
next
  case (Cons p kvs)
  obtain k' v' where p: "p = (k', v')" by (cases p)
  have "store (p # kvs) d = store kvs (AList.update k' v' d)"
    by (simp add: store_def p)
  then show ?case
    by (simp add: Cons.IH p update_conv' map_add_def split: option.splits)
qed

lemma calc_roots_Inr:
  "calc_roots db ns sc sd (el, reqs) = Inr (el', reqs') \<Longrightarrow>
   \<exists>results. map (\<lambda>n. Node_calc db n sc sd) ns = map Inr results
     \<and> el' = (el \<and> list_all (\<lambda>(n, r). eligible r = Some True)
                     (filter (\<lambda>(n, r). node_name n \<noteq> ''categories'') (zip ns results)))
     \<and> reqs' = store (zip (map node_name ns) results) reqs"
proof (induction ns arbitrary: el reqs)
  case Nil
  then show ?case by (simp add: store_def)
next
  case (Cons n ns)
  from Cons.prems obtain r where r: "Node_calc db n sc sd = Inr r"
    by (cases "Node_calc db n sc sd") auto
  from Node_calc_flag_Some[OF r] obtain b where b: "eligible r = Some b" by auto
  let ?el = "if node_name n \<noteq> ''categories'' then el \<and> b else el"
  from Cons.prems r b have rest:
    "calc_roots db ns sc sd (?el, AList.update (node_name n) r reqs) = Inr (el', reqs')"
    by (auto simp: combine_def split: if_splits)
  from Cons.IH[OF rest] obtain results where res:
    "map (\<lambda>n. Node_calc db n sc sd) ns = map Inr results"
    "el' = (?el \<and> list_all (\<lambda>(n, r). eligible r = Some True)
                     (filter (\<lambda>(n, r). node_name n \<noteq> ''categories'') (zip ns results)))"
    "reqs' = store (zip (map node_name ns) results) (AList.update (node_name n) r reqs)"
    by blast
  show ?case
  proof (intro exI[of _ "r # results"] conjI)
    show "map (\<lambda>n. Node_calc db n sc sd) (n # ns) = map Inr (r # results)"
      using r res(1) by simp
    show "el' = (el \<and> list_all (\<lambda>(n, r). eligible r = Some True)
           (filter (\<lambda>(n, r). node_name n \<noteq> ''categories'') (zip (n # ns) (r # results))))"
      using res(2) b by auto
    show "reqs' = store (zip (map node_name (n # ns)) (r # results)) reqs"
      using res(3) by (simp add: store_def)
  qed
qed

lemma calc_roots_first_error:
  "(\<forall>m\<in>set pre. \<exists>res. Node_calc db m sc sd = Inr res) \<Longrightarrow>
   Node_calc db n sc sd = Inl e \<Longrightarrow>
   calc_roots db (pre @ n # post) sc sd st = Inl e"
proof (induction pre arbitrary: st)
  case Nil
  obtain el reqs where st: "st = (el, reqs)" by (cases st)
  from Nil show ?case by (simp add: st)
next
  case (Cons m pre)
  obtain el reqs where st: "st = (el, reqs)" by (cases st)
  from Cons.prems obtain r where r: "Node_calc db m sc sd = Inr r" by auto
  from Node_calc_flag_Some[OF r] obtain b where b: "eligible r = Some b" by auto
  from Cons.prems have "\<forall>m\<in>set pre. \<exists>res. Node_calc db m sc sd = Inr res" by simp
  from Cons.IH[OF this Cons.prems(2)] show ?case
    by (simp add: st r b combine_def)
qed

lemma set_update_subset: "set (AList.update k v al) \<subseteq> insert (k, v) (set al)"
  by (induction al) auto

lemma calc_applicants_mem:
  "calc_applicants w rs ys acc = Inr overall \<Longrightarrow> (key, rep) \<in> set overall \<Longrightarrow>
   (key, rep) \<in> set acc
   \<or> (\<exists>a. Inr a \<in> set ys \<and> applicant_report w rs a = Inr (key, rep))"
proof (induction w rs ys acc rule: calc_applicants.induct)
  case (1 w rs acc)
  then show ?case by simp
next
  case (2 w rs e ys acc)
  then show ?case by simp
next
  case (3 w rs a ys acc)
  from "3.prems"(1) obtain k r where kr: "applicant_report w rs a = Inr (k, r)"
    by (cases "applicant_report w rs a") auto
  with "3.prems"(1) have "calc_applicants w rs ys (AList.update k r acc) = Inr overall"
    by simp
  from "3.IH"[OF kr refl this "3.prems"(2)] consider
    "(key, rep) \<in> set (AList.update k r acc)"
    | "\<exists>a. Inr a \<in> set ys \<and> applicant_report w rs a = Inr (key, rep)"
    by blast
  then show ?case
  proof cases
    case 1
    with set_update_subset[of k r acc] have "(key, rep) = (k, r) \<or> (key, rep) \<in> set acc"
      by auto
    with kr show ?thesis by auto
  next
    case 2
    then show ?thesis by auto
  qed
qed

lemma calc_applicants_first_error:
  "(\<forall>d\<in>set earlier. \<exists>kr. applicant_report w rs d = Inr kr) \<Longrightarrow>
   applicant_report w rs a = Inl e \<Longrightarrow>
   calc_applicants w rs (map Inr earlier @ Inr a # later) acc = Inl e"
proof (induction earlier arbitrary: acc)
  case Nil
  then show ?case by simp
next
  case (Cons d ds)
  from Cons.prems obtain k r where "applicant_report w rs d = Inr (k, r)" by fastforce
  moreover from Cons.prems have "\<forall>d\<in>set ds. \<exists>kr. applicant_report w rs d = Inr kr" by simp
  ultimately show ?case using Cons.IH Cons.prems(2) by simp
qed

lemma applicant_report_Inr:
  assumes "applicant_report w rs a = Inr (key, rep)"
  shows "\<exists>sc sd results. values_from_json w rs a = Inr (sc, sd)
     \<and> map (\<lambda>n. Node_calc (execute w) n sc sd) (root_nodes rs) = map Inr results
     \<and> applicant_id w a = Inr key
     \<and> rep_eligible rep = list_all (\<lambda>(n, r). eligible r = Some True)
          (filter (\<lambda>(n, r). node_name n \<noteq> ''categories'') (zip (root_nodes rs) results))
     \<and> ''categories'' \<notin> set (map fst (requirements rep))
     \<and> (\<forall>name. name \<noteq> ''categories'' \<longrightarrow>
           map_of (requirements rep) name
             = map_of (rev (zip (map node_name (root_nodes rs)) results)) name)
     \<and> findings rep =
          (case map_of (rev (zip (map node_name (root_nodes rs)) results)) ''categories'' of
             None \<Rightarrow> [] | Some c \<Rightarrow> subfindings c)
     \<and> applicable rep = map fst (filter (\<lambda>(name, r). eligible r = Some True) (findings rep))"
proof -
  from assms obtain sc sd where v: "values_from_json w rs a = Inr (sc, sd)"
    by (cases "values_from_json w rs a") (auto simp: applicant_report_def)
  from assms v obtain el reqs where
    c: "calc_roots (execute w) (root_nodes rs) sc sd (True, []) = Inr (el, reqs)"
    by (cases "calc_roots (execute w) (root_nodes rs) sc sd (True, [])")
      (auto simp: applicant_report_def)
  from assms v c have k: "applicant_id w a = Inr key"
    and rep: "rep = \<lparr> rep_eligible = el, requirements = AList.delete ''categories'' reqs,
                     applicable = category_names (categories_subfindings reqs),
                     findings = categories_subfindings reqs \<rparr>"
    by (auto simp: applicant_report_def split: sum.splits)
  from calc_roots_Inr[OF c] obtain results where res:
    "map (\<lambda>n. Node_calc (execute w) n sc sd) (root_nodes rs) = map Inr results"
    "el = list_all (\<lambda>(n, r). eligible r = Some True)
            (filter (\<lambda>(n, r). node_name n \<noteq> ''categories'') (zip (root_nodes rs) results))"
    "reqs = store (zip (map node_name (root_nodes rs)) results) []"
    by auto
  let ?kvs = "zip (map node_name (root_nodes rs)) results"
  have m: "map_of reqs name = map_of (rev ?kvs) name" for name
    by (simp add: res(3) map_of_store split: option.splits)
  show ?thesis
  proof (intro exI[of _ sc] exI[of _ sd] exI[of _ results] conjI allI impI)
    show "values_from_json w rs a = Inr (sc, sd)" by (rule v)
    show "map (\<lambda>n. Node_calc (execute w) n sc sd) (root_nodes rs) = map Inr results"
      by (rule res(1))
    show "applicant_id w a = Inr key" by (rule k)
    show "rep_eligible rep = list_all (\<lambda>(n, r). eligible r = Some True)
          (filter (\<lambda>(n, r). node_name n \<noteq> ''categories'') (zip (root_nodes rs) results))"
      by (simp add: rep res(2))
    show "''categories'' \<notin> set (map fst (requirements rep))"
      by (simp add: rep delete_keys)
    show "map_of (requirements rep) name = map_of (rev ?kvs) name"
      if "name \<noteq> ''categories''" for name
      using that by (simp add: rep delete_conv m)
    show "findings rep = (case map_of (rev ?kvs) ''categories'' of
             None \<Rightarrow> [] | Some c \<Rightarrow> subfindings c)"
      by (simp add: rep categories_subfindings_def m)
    show "applicable rep = map fst (filter (\<lambda>(name, r). eligible r = Some True) (findings rep))"
      by (simp add: rep category_names_def truthy_bool_def)
  qed
qed

subsection \<open>Running Ruleset.calc\<close>

lemma flattened_application_7:
  "flattened application_7 = ([(''state'', JStr ''AZ'')], [Inr record_7])"
  by (simp add: flattened_def application_7_def pop_def record_7_def)

lemma node_names: "node_name node_general = ''general''" "node_name node_categories = ''categories''"
  by (simp_all add: node_general_def node_categories_def)

lemma applicant_report_7: "applicant_report demo_world demo_ruleset record_7 = Inr (7, report_7)"
proof -
  have e: "execute demo_world = db_demo" by (simp add: demo_world_def)
  have r: "root_nodes demo_ruleset = [node_general, node_categories]"
    by (simp add: demo_ruleset_def)
  have eg: "eligible result_general = Some True" "eligible result_categories = Some True"
    by (simp_all add: result_general_def result_categories_def)
  have c: "calc_roots (execute demo_world) (root_nodes demo_ruleset) sc0 [''[{}]''] (True, [])
      = Inr (True, [(''general'', result_general), (''categories'', result_categories)])"
    by (simp add: e r Node_calc_general Node_calc_categories node_names combine_def eg)
  have i: "applicant_id demo_world record_7 = Inr 7"
    by (simp add: applicant_id_def record_7_def)
  have s: "categories_subfindings
      [(''general'', result_general), (''categories'', result_categories)]
      = [(''income'', result_AB), (''B'', result_B)]"
    by (simp add: categories_subfindings_def result_categories_def)
  have n: "category_names [(''income'', result_AB), (''B'', result_B)] = [''income'']"
    by (simp add: category_names_def truthy_bool_def result_AB_def result_B_def)
  show ?thesis
    by (simp add: applicant_report_def values_from_json_record_7 c i s n report_7_def)
qed

lemma Ruleset_calc_application_7:
  "Ruleset_calc demo_world demo_ruleset application_7
     = ([(''state'', JStr ''AZ'')], Inr [(7, report_7)])"
  by (simp add: Ruleset_calc_def flattened_application_7 applicant_report_7)

lemma execute_broken:
  "db_broken (statement rule_B sc0) sd = Raises ''function b(record) does not exist''"
  by (simp add: db_broken_def statements_differ)

lemma Rule_calc_broken_A: "Rule_calc db_broken rule_A sc0 sd = Inr result_A"
  by (simp add: Rule_calc_def db_broken_def fetchone_def row_A_def truthy_date_def
      truthy_text_def result_A_def)

lemma Rule_calc_broken_B: "Rule_calc db_broken rule_B sc0 sd = Inl error_B"
  by (simp add: Rule_calc_def execute_broken error_msg_def error_B_def rule_names)

subsection \<open>The report of an applicant\<close>

text \<open>
  Claim C2. Every report that \<^verbatim>\<open>Ruleset.calc\<close> returns belongs to an applicant record of
  the flattened payload for which all root nodes were evaluated. Its \<^verbatim>\<open>eligible\<close> is the
  conjunction of the flags of the roots whose name is not \<^verbatim>\<open>categories\<close>. Its
  \<^verbatim>\<open>requirements\<close> has no key \<^verbatim>\<open>categories\<close> and holds, under every other name, the
  result of the root of that name (of the last one evaluated, should two roots share a
  name). \<^verbatim>\<open>categories.findings\<close> is the subfindings dictionary of the root named
  \<^verbatim>\<open>categories\<close>, empty when there is none, and \<^verbatim>\<open>categories.applicable\<close> lists, in order,
  the names of those subfindings whose \<^verbatim>\<open>eligible\<close> is true.
\<close>

theorem Ruleset_calc_report:
  assumes "snd (Ruleset_calc w rs application) = Inr overall_result"
    and "(key, rep) \<in> set overall_result"
  shows "\<exists>applicant sc sd results.
       Inr applicant \<in> set (snd (flattened application))
     \<and> values_from_json w rs applicant = Inr (sc, sd)
     \<and> map (\<lambda>n. Node_calc (execute w) n sc sd) (root_nodes rs) = map Inr results
     \<and> rep_eligible rep = list_all (\<lambda>(n, r). eligible r = Some True)
          (filter (\<lambda>(n, r). node_name n \<noteq> ''categories'') (zip (root_nodes rs) results))
     \<and> ''categories'' \<notin> set (map fst (requirements rep))
     \<and> (\<forall>name. name \<noteq> ''categories'' \<longrightarrow>
           map_of (requirements rep) name
             = map_of (rev (zip (map node_name (root_nodes rs)) results)) name)
     \<and> findings rep =
          (case map_of (rev (zip (map node_name (root_nodes rs)) results)) ''categories'' of
             None \<Rightarrow> [] | Some c \<Rightarrow> subfindings c)
     \<and> applicable rep = map fst (filter (\<lambda>(name, r). eligible r = Some True) (findings rep))"
proof -
  from assms(1) have "calc_applicants w rs (snd (flattened application)) [] = Inr overall_result"
    by (simp add: Ruleset_calc_def split: prod.splits)
  from calc_applicants_mem[OF this assms(2)] obtain a where
    a: "Inr a \<in> set (snd (flattened application))" "applicant_report w rs a = Inr (key, rep)"
    by auto
  from applicant_report_Inr[OF a(2)] a(1) show ?thesis by blast
qed

theorem Ruleset_calc_report_witness:
  "snd (Ruleset_calc demo_world demo_ruleset application_7) = Inr [(7, report_7)]
   \<and> (7, report_7) \<in> set [(7, report_7)]
   \<and> (\<exists>applicant sc sd results.
         Inr applicant \<in> set (snd (flattened application_7))
       \<and> values_from_json demo_world demo_ruleset applicant = Inr (sc, sd)
       \<and> map (\<lambda>n. Node_calc (execute demo_world) n sc sd) (root_nodes demo_ruleset)
           = map Inr results
       \<and> rep_eligible report_7 = list_all (\<lambda>(n, r). eligible r = Some True)
            (filter (\<lambda>(n, r). node_name n \<noteq> ''categories'')
               (zip (root_nodes demo_ruleset) results))
       \<and> ''categories'' \<notin> set (map fst (requirements report_7))
       \<and> findings report_7 =
            (case map_of (rev (zip (map node_name (root_nodes demo_ruleset)) results))
                    ''categories'' of
               None \<Rightarrow> [] | Some c \<Rightarrow> subfindings c)
       \<and> applicable report_7
           = map fst (filter (\<lambda>(name, r). eligible r = Some True) (findings report_7)))"
proof -
  have h1: "snd (Ruleset_calc demo_world demo_ruleset application_7) = Inr [(7, report_7)]"
    by (simp add: Ruleset_calc_application_7)
  have h2: "(7, report_7) \<in> set [(7, report_7)]" by simp
  from Ruleset_calc_report[OF h1 h2] h1 h2 show ?thesis by blast
qed

subsection \<open>Failures of rule execution\<close>

text \<open>
  Claim C4. When \<^verbatim>\<open>cursor.execute\<close> raises for the statement of a rule, \<^verbatim>\<open>Rule.calc\<close>
  raises \<^verbatim>\<open>DataError\<close> with a message made of the rule's name, the text of the exception
  and the statement; it returns no result. A node whose tree holds such a rule raises
  too: it never returns a result, and what it raises is an exception raised by a rule of
  its tree, as it was raised, or the \<^verbatim>\<open>TypeError\<close> of \<^verbatim>\<open>&=\<close> and \<^verbatim>\<open>|=\<close> on a flag that is
  \<^verbatim>\<open>None\<close>. At each level the exception of the first child that fails is the exception of
  the node, unchanged; the same holds for the loop over the root nodes and for the loop
  over the applicants in \<^verbatim>\<open>Ruleset.calc\<close>.
\<close>

theorem rule_failure_propagates:
  "(db (statement r sc) sd = Raises exc \<longrightarrow>
      Rule_calc db r sc sd =
        Inl (DataError (''Error executing rule '' @ rule_name r @ ''\<newline>'' @ exc @
               ''\<newline>\<newline> in sql:\<newline>\<newline>'' @ statement r sc)))
   \<and> (r \<in> set (tree_rules n) \<and> db (statement r sc) sd = Raises exc \<longrightarrow>
        (\<exists>e. Node_calc db n sc sd = Inl e
           \<and> (e = TypeError \<or> (\<exists>r'\<in>set (tree_rules n). Rule_calc db r' sc sd = Inl e))))
   \<and> (child_results db n sc sd = map Inr oks @ Inl e # rest
        \<and> (\<forall>x\<in>set oks. eligible x \<noteq> None) \<longrightarrow>
        Node_calc db n sc sd = Inl e)
   \<and> (values_from_json w rs a = Inr (sc, sd) \<and> root_nodes rs = pre @ n # post
        \<and> (\<forall>m\<in>set pre. \<exists>res. Node_calc (execute w) m sc sd = Inr res)
        \<and> Node_calc (execute w) n sc sd = Inl e \<longrightarrow>
        applicant_report w rs a = Inl e)
   \<and> (snd (flattened application) = map Inr earlier @ Inr a # later
        \<and> (\<forall>d\<in>set earlier. \<exists>kr. applicant_report w rs d = Inr kr)
        \<and> applicant_report w rs a = Inl e \<longrightarrow>
        snd (Ruleset_calc w rs application) = Inl e)"
proof (intro conjI impI)
  assume "db (statement r sc) sd = Raises exc"
  then show "Rule_calc db r sc sd =
        Inl (DataError (''Error executing rule '' @ rule_name r @ ''\<newline>'' @ exc @
               ''\<newline>\<newline> in sql:\<newline>\<newline>'' @ statement r sc))"
    by (simp add: Rule_calc_def error_msg_def)
next
  assume h: "r \<in> set (tree_rules n) \<and> db (statement r sc) sd = Raises exc"
  then have f: "\<exists>e. Rule_calc db r sc sd = Inl e" by (simp add: Rule_calc_def)
  have "\<not> (\<exists>res. Node_calc db n sc sd = Inr res)"
  proof
    assume "\<exists>res. Node_calc db n sc sd = Inr res"
    then obtain res where "Node_calc db n sc sd = Inr res" ..
    from Node_calc_Inr_rules[OF this] h f show False by auto
  qed
  then obtain e where e: "Node_calc db n sc sd = Inl e"
    by (cases "Node_calc db n sc sd") auto
  from Node_calc_Inl[OF e] e
  show "\<exists>e. Node_calc db n sc sd = Inl e
           \<and> (e = TypeError \<or> (\<exists>r'\<in>set (tree_rules n). Rule_calc db r' sc sd = Inl e))"
    by blast
next
  assume "child_results db n sc sd = map Inr oks @ Inl e # rest
        \<and> (\<forall>x\<in>set oks. eligible x \<noteq> None)"
  then show "Node_calc db n sc sd = Inl e"
    using Node_calc_first_error by blast
next
  assume h: "values_from_json w rs a = Inr (sc, sd) \<and> root_nodes rs = pre @ n # post
        \<and> (\<forall>m\<in>set pre. \<exists>res. Node_calc (execute w) m sc sd = Inr res)
        \<and> Node_calc (execute w) n sc sd = Inl e"
  then have "calc_roots (execute w) (pre @ n # post) sc sd (True, []) = Inl e"
    using calc_roots_first_error by blast
  with h show "applicant_report w rs a = Inl e"
    by (simp add: applicant_report_def)
next
  assume h: "snd (flattened application) = map Inr earlier @ Inr a # later
        \<and> (\<forall>d\<in>set earlier. \<exists>kr. applicant_report w rs d = Inr kr)
        \<and> applicant_report w rs a = Inl e"
  then have "calc_applicants w rs (map Inr earlier @ Inr a # later) [] = Inl e"
    using calc_applicants_first_error by blast
  with h show "snd (Ruleset_calc w rs application) = Inl e"
    by (cases "flattened application") (simp add: Ruleset_calc_def)
qed

theorem rule_failure_propagates_witness:
  "db_broken (statement rule_B sc0) [''[{}]''] = Raises ''function b(record) does not exist''
   \<and> rule_B \<in> set (tree_rules node_general)
   \<and> Rule_calc db_broken rule_B sc0 [''[{}]''] = Inl error_B
   \<and> child_results db_broken node_AB sc0 [''[{}]''] = map Inr [result_A] @ Inl error_B # []
   \<and> eligible result_A \<noteq> None
   \<and> Node_calc db_broken node_AB sc0 [''[{}]''] = Inl error_B
   \<and> Node_calc db_broken node_general sc0 [''[{}]''] = Inl error_B
   \<and> values_from_json broken_world demo_ruleset record_7 = Inr (sc0, [''[{}]''])
   \<and> root_nodes demo_ruleset = [] @ node_general # [node_categories]
   \<and> applicant_report broken_world demo_ruleset record_7 = Inl error_B
   \<and> snd (flattened application_7) = map Inr [] @ Inr record_7 # []
   \<and> snd (Ruleset_calc broken_world demo_ruleset application_7) = Inl error_B"
proof -
  let ?sd = "[''[{}]'']"
  have e: "execute broken_world = db_broken" by (simp add: broken_world_def)
  have h1: "db_broken (statement rule_B sc0) ?sd = Raises ''function b(record) does not exist''"
    by (rule execute_broken)
  have h2: "rule_B \<in> set (tree_rules node_general)"
    by (simp add: node_general_def node_AB_def)
  have c1: "Rule_calc db_broken rule_B sc0 ?sd = Inl error_B" by (rule Rule_calc_broken_B)
  have h3: "child_results db_broken node_AB sc0 ?sd = map Inr [result_A] @ Inl error_B # []"
    by (simp add: child_results_def node_AB_def Rule_calc_broken_A Rule_calc_broken_B)
  have h4: "\<forall>x\<in>set [result_A]. eligible x \<noteq> None" by (simp add: eligible_ABC del: not_None_eq)
  from rule_failure_propagates[where db = db_broken and n = node_AB and sc = sc0
      and sd = ?sd and oks = "[result_A]" and e = error_B and rest = "[]"] h3 h4
  have c2: "Node_calc db_broken node_AB sc0 ?sd = Inl error_B" by blast
  have h5: "child_results db_broken node_general sc0 ?sd
      = map Inr [] @ Inl error_B # [Rule_calc db_broken rule_C sc0 ?sd]"
    by (simp add: child_results_def node_general_def c2)
  from rule_failure_propagates[where db = db_broken and n = node_general and sc = sc0
      and sd = ?sd and oks = "[]" and e = error_B
      and rest = "[Rule_calc db_broken rule_C sc0 ?sd]"] h5
  have c3: "Node_calc db_broken node_general sc0 ?sd = Inl error_B" by simp
  from rule_failure_propagates[where db = db_broken and r = rule_B and n = node_general
      and sc = sc0 and sd = ?sd and exc = "''function b(record) does not exist''"] h1 h2
  have c3': "\<exists>e. Node_calc db_broken node_general sc0 ?sd = Inl e" by blast
  have h6: "values_from_json broken_world demo_ruleset record_7 = Inr (sc0, ?sd)"
    by (simp add: values_from_json_def broken_world_def demo_fragments_def has_key_def
        record_7_def null_source_sql_def demo_ruleset_def sc0_def)
  have h7: "root_nodes demo_ruleset = [] @ node_general # [node_categories]"
    by (simp add: demo_ruleset_def)
  from rule_failure_propagates[where w = broken_world and rs = demo_ruleset
      and a = record_7 and sc = sc0 and sd = ?sd and pre = "[]" and n = node_general
      and post = "[node_categories]" and e = error_B] h6 h7 c3 e
  have c4: "applicant_report broken_world demo_ruleset record_7 = Inl error_B" by simp
  have h8: "snd (flattened application_7) = map Inr [] @ Inr record_7 # []"
    by (simp add: flattened_application_7)
  from rule_failure_propagates[where w = broken_world and rs = demo_ruleset
      and application = application_7 and earlier = "[]" and a = record_7 and later = "[]"
      and e = error_B] h8 c4
  have c5: "snd (Ruleset_calc broken_world demo_ruleset application_7) = Inl error_B" by simp
  from h4 have h4': "eligible result_A \<noteq> None" by simp
  from h1 h2 c1 h3 h4' c2 c3 h6 h7 c4 h8 c5 show ?thesis by blast
qed

end
